theory Spec2Isabelle
  imports Main "HOL-Library.AList"
begin

section \<open>Platform operations on strings\<close>

text \<open>
  The relay and the client hook are TypeScript; the string operations of the platform
  that they call are written out here. A string is a list of characters, each a code unit
  below 256.
\<close>

definition LF :: char where
  "LF = CHR 0x0A"

definition DQ :: char where
  "DQ = CHR 0x22"

definition BSL :: char where
  "BSL = CHR 0x5C"

text \<open>
  \<^verbatim>\<open>String.prototype.trim\<close> strips white space and line terminators. Of the code units
  below 256 these are seven: tab, line feed, vertical tab, form feed, carriage return,
  space and the no-break space U+00A0.
\<close>

definition isWhiteSpace :: "char \<Rightarrow> bool" where
  "isWhiteSpace c \<longleftrightarrow>
     c = CHR 0x09 \<or> c = CHR 0x0A \<or> c = CHR 0x0B \<or> c = CHR 0x0C \<or> c = CHR 0x0D \<or>
     c = CHR 0x20 \<or> c = CHR 0xA0"

definition trim :: "string \<Rightarrow> string" where
  "trim s = rev (dropWhile isWhiteSpace (rev (dropWhile isWhiteSpace s)))"

text \<open>\<^verbatim>\<open>s.split(sep)\<close> for a separator of one character; the empty string gives \<^verbatim>\<open>['']\<close>.\<close>

fun split :: "char \<Rightarrow> string \<Rightarrow> string list" where
  "split sep [] = [[]]"
| "split sep (c # cs) =
     (if c = sep then [] # split sep cs
      else (case split sep cs of
              [] \<Rightarrow> [[c]]
            | l # ls \<Rightarrow> (c # l) # ls))"

definition startsWith :: "string \<Rightarrow> string \<Rightarrow> bool" where
  "startsWith s p \<longleftrightarrow> take (length p) s = p"

text \<open>\<^verbatim>\<open>xs.join(sep)\<close>.\<close>

fun join :: "string \<Rightarrow> string list \<Rightarrow> string" where
  "join sep [] = []"
| "join sep [x] = x"
| "join sep (x # y # ys) = x @ sep @ join sep (y # ys)"

text \<open>A number in a template literal: its decimal digits.\<close>

definition digitChar :: "nat \<Rightarrow> char" where
  "digitChar d = char_of (48 + d)"

fun showNat :: "nat \<Rightarrow> string" where
  "showNat n = (if n < 10 then [digitChar n] else showNat (n div 10) @ [digitChar (n mod 10)])"

declare showNat.simps [simp del]

text \<open>\<^verbatim>\<open>[...new Set(xs)]\<close>: the first occurrence of each element, in order.\<close>

definition uniq :: "'a list \<Rightarrow> 'a list" where
  "uniq xs = rev (remdups (rev xs))"


section \<open>The wire protocol\<close>

datatype SSEEventType = CONTENT | DONE | ERROR | METADATA

text \<open>The string value of each member of the enum.\<close>

fun eventName :: "SSEEventType \<Rightarrow> string" where
  "eventName CONTENT = ''content''"
| "eventName DONE = ''done''"
| "eventName ERROR = ''error''"
| "eventName METADATA = ''metadata''"

text \<open>\<^verbatim>\<open>interface SSEMessage { type; data; id? }\<close> (\<^verbatim>\<open>retry\<close> is never written or read).\<close>

record SSEMessage =
  msgType :: SSEEventType
  msgData :: string
  msgId :: "string option"

subsection \<open>\<^verbatim>\<open>JSON.stringify\<close> on objects whose members are strings\<close>

definition hexDigit :: "nat \<Rightarrow> char" where
  "hexDigit d = (if d < 10 then char_of (48 + d) else char_of (87 + d))"

text \<open>The escape of one character inside a JSON string literal.\<close>

definition quoteChar :: "char \<Rightarrow> string" where
  "quoteChar c =
     (if c = DQ then [BSL, DQ]
      else if c = BSL then [BSL, BSL]
      else if c = CHR 0x08 then [BSL, CHR ''b'']
      else if c = CHR 0x0C then [BSL, CHR ''f'']
      else if c = CHR 0x0A then [BSL, CHR ''n'']
      else if c = CHR 0x0D then [BSL, CHR ''r'']
      else if c = CHR 0x09 then [BSL, CHR ''t'']
      else if (of_char c :: nat) < 32
        then [BSL, CHR ''u'', CHR ''0'', CHR ''0'',
              hexDigit (of_char c div 16), hexDigit (of_char c mod 16)]
      else [c])"

definition quoteJSONString :: "string \<Rightarrow> string" where
  "quoteJSONString s = DQ # concat (map quoteChar s) @ [DQ]"

definition stringifyMember :: "string \<times> string \<Rightarrow> string" where
  "stringifyMember kv = quoteJSONString (fst kv) @ '':'' @ quoteJSONString (snd kv)"

definition stringifyObject :: "(string \<times> string) list \<Rightarrow> string" where
  "stringifyObject kvs = ''{'' @ join '','' (map stringifyMember kvs) @ ''}''"

text \<open>
  \<^verbatim>\<open>JSON.stringify(message)\<close> for an \<^verbatim>\<open>SSEMessage\<close>: the members in the order in which
  \<^verbatim>\<open>buildSSEMessage\<close> sets them, \<^verbatim>\<open>id\<close> only when it was set.
\<close>

definition stringifySSEMessage :: "SSEMessage \<Rightarrow> string" where
  "stringifySSEMessage m =
     stringifyObject
       ([(''type'', eventName (msgType m)), (''data'', msgData m)] @
        (case msgId m of None \<Rightarrow> [] | Some i \<Rightarrow> [(''id'', i)]))"


section \<open>The relay server (\<^verbatim>\<open>src/app/api/chat/route.ts\<close>)\<close>

subsection \<open>Frames\<close>

text \<open>
  \<^verbatim>\<open>buildSSEMessage(type, data, id?)\<close>: the message object gets an \<^verbatim>\<open>id\<close> only when the
  argument is truthy (present and not the empty string); the record written is the field
  marker, the JSON text and a blank line.
\<close>

definition sseMessage :: "SSEEventType \<Rightarrow> string \<Rightarrow> string option \<Rightarrow> SSEMessage" where
  "sseMessage ty d i =
     \<lparr>msgType = ty, msgData = d,
      msgId = (case i of None \<Rightarrow> None | Some x \<Rightarrow> if x = [] then None else Some x)\<rparr>"

definition wireRecord :: "SSEMessage \<Rightarrow> string" where
  "wireRecord m = ''data: '' @ stringifySSEMessage m @ [LF, LF]"

definition buildSSEMessage :: "SSEEventType \<Rightarrow> string \<Rightarrow> string option \<Rightarrow> string" where
  "buildSSEMessage ty d i = wireRecord (sseMessage ty d i)"

subsection \<open>Request context and upstream\<close>

record PerformanceMetrics =
  requestId :: string
  messageCount :: nat
  errorCount :: nat

text \<open>A value that was thrown: an \<^verbatim>\<open>Error\<close> with its message, or anything else.\<close>

datatype thrown = Error string | NonError

text \<open>\<^verbatim>\<open>error instanceof Error ? error.message : 'Unknown error'\<close>\<close>

fun errorMessageOf :: "thrown \<Rightarrow> string" where
  "errorMessageOf (Error m) = m"
| "errorMessageOf NonError = ''Unknown error''"

text \<open>
  A chunk of the provider's stream, as far as \<^verbatim>\<open>chunk?.choices?.[0]?.delta?.content\<close>
  reads it: every link of the chain may be absent, and the content is a string or
  not (\<open>None\<close>: absent, \<^verbatim>\<open>null\<close>, or not a string).
\<close>

record Delta =
  deltaContent :: "string option"

record Choice =
  delta :: "Delta option"

record ChatCompletionChunk =
  choices :: "Choice list option"

definition tokenOf :: "ChatCompletionChunk option \<Rightarrow> string option" where
  "tokenOf chunk =
     (case chunk of
        None \<Rightarrow> None
      | Some c \<Rightarrow>
          (case choices c of
             None \<Rightarrow> None
           | Some [] \<Rightarrow> None
           | Some (c0 # _) \<Rightarrow>
               (case delta c0 of
                  None \<Rightarrow> None
                | Some d \<Rightarrow> deltaContent d)))"

text \<open>
  The provider's stream as the \<^verbatim>\<open>for await\<close> loop consumes it: the chunks it yields, then
  either the end of the iteration or a throw.
\<close>

record ChatCompletionStream =
  chunks :: "ChatCompletionChunk option list"
  failure :: "thrown option"

subsection \<open>The body of \<^verbatim>\<open>ReadableStream.start\<close>\<close>

text \<open>
  The loop over the chunks: the metrics and the records enqueued so far go in, and come
  out updated. A chunk whose token is not a string is skipped by \<^verbatim>\<open>continue\<close>.
\<close>

fun relayChunks ::
  "PerformanceMetrics \<Rightarrow> string list \<Rightarrow> ChatCompletionChunk option list
     \<Rightarrow> PerformanceMetrics \<times> string list" where
  "relayChunks metrics queue [] = (metrics, queue)"
| "relayChunks metrics queue (chunk # rest) =
     (case tokenOf chunk of
        None \<Rightarrow> relayChunks metrics queue rest
      | Some token \<Rightarrow>
          (let metrics' = metrics\<lparr>messageCount := messageCount metrics + 1\<rparr>
           in relayChunks metrics'
                (queue @ [buildSSEMessage CONTENT token
                            (Some (requestId metrics' @ ''-'' @ showNat (messageCount metrics')))])
                rest))"

text \<open>What \<^verbatim>\<open>logPerformanceMetrics\<close> prints (the times left out).\<close>

record LogRecord =
  logRequestId :: string
  logMessageCount :: nat
  logErrorCount :: nat
  logError :: "string option"

fun thrownMessage :: "thrown \<Rightarrow> string option" where
  "thrownMessage (Error m) = Some m"
| "thrownMessage NonError = None"

definition logPerformanceMetrics :: "PerformanceMetrics \<Rightarrow> thrown option \<Rightarrow> LogRecord" where
  "logPerformanceMetrics metrics err =
     \<lparr>logRequestId = requestId metrics, logMessageCount = messageCount metrics,
      logErrorCount = errorCount metrics,
      logError = (case err of None \<Rightarrow> None | Some e \<Rightarrow> thrownMessage e)\<rparr>"

text \<open>
  \<^verbatim>\<open>start(controller)\<close>: the metadata record, the loop, then the \<^verbatim>\<open>done\<close> record; a
  throw of the provider's stream lands in the \<^verbatim>\<open>catch\<close>, which counts the error and
  enqueues the \<^verbatim>\<open>error\<close> record. \<open>metadataText\<close> is the text
  \<^verbatim>\<open>JSON.stringify({requestId, timestamp, model, provider})\<close>. The result is the records
  enqueued until \<^verbatim>\<open>controller.close()\<close>, the metrics and the line logged. The provider's
  stream is finite, and the writes to the controller succeed.
\<close>

definition start ::
  "PerformanceMetrics \<Rightarrow> string \<Rightarrow> ChatCompletionStream
     \<Rightarrow> string list \<times> PerformanceMetrics \<times> LogRecord" where
  "start metrics metadataText stream =
     (let queue0 = [buildSSEMessage METADATA metadataText (Some (requestId metrics))];
          (metrics1, queue1) = relayChunks metrics queue0 (chunks stream)
      in case failure stream of
           None \<Rightarrow>
             (queue1 @ [buildSSEMessage DONE [] (Some (requestId metrics1 @ ''-done''))],
              metrics1, logPerformanceMetrics metrics1 None)
         | Some error \<Rightarrow>
             (let metrics2 = metrics1\<lparr>errorCount := errorCount metrics1 + 1\<rparr>
              in (queue1 @ [buildSSEMessage ERROR (errorMessageOf error)
                              (Some (requestId metrics2 @ ''-error''))],
                  metrics2, logPerformanceMetrics metrics2 (Some error))))"

subsection \<open>The request handler \<^verbatim>\<open>POST\<close>\<close>

datatype Role = User | Assistant | System

fun roleName :: "Role \<Rightarrow> string" where
  "roleName User = ''user''"
| "roleName Assistant = ''assistant''"
| "roleName System = ''system''"

record VercelChatMessage =
  role :: Role
  content :: string

definition formatMessage :: "'a VercelChatMessage_scheme \<Rightarrow> string" where
  "formatMessage message = roleName (role message) @ '': '' @ content message"

text \<open>The variables of \<^verbatim>\<open>process.env\<close> that the handler reads; \<open>None\<close> is an unset variable.\<close>

record Env =
  ALLOWED_ORIGINS :: "string option"
  NODE_ENV :: "string option"
  DEFAULT_INTERNAL_USER_ID :: "string option"
  DEFAULT_TENANT_ID :: "string option"
  PROVIDER :: "string option"

text \<open>A string or \<^verbatim>\<open>null\<close>/\<^verbatim>\<open>undefined\<close> in a condition: truthy when present and not empty.\<close>

definition truthy :: "string option \<Rightarrow> bool" where
  "truthy v \<longleftrightarrow> (case v of None \<Rightarrow> False | Some x \<Rightarrow> x \<noteq> [])"

text \<open>\<^verbatim>\<open>v || d\<close> on strings.\<close>

definition orElse :: "string option \<Rightarrow> string \<Rightarrow> string" where
  "orElse v d = (case v of None \<Rightarrow> d | Some x \<Rightarrow> if x = [] then d else x)"

definition baseOrigins :: "string list" where
  "baseOrigins = [''https://intranet.bank.local'']"

definition envOrigins :: "Env \<Rightarrow> string list" where
  "envOrigins env =
     (case ALLOWED_ORIGINS env of
        None \<Rightarrow> []
      | Some v \<Rightarrow> if v = [] then [] else filter (\<lambda>origin. origin \<noteq> []) (map trim (split (CHR '','') v)))"

definition devOrigins :: "Env \<Rightarrow> string list" where
  "devOrigins env =
     (if NODE_ENV env \<noteq> Some ''production''
      then [''http://localhost:3000'', ''http://127.0.0.1:3000'',
            ''http://localhost:3001'', ''http://127.0.0.1:3001'']
      else [])"

definition allowedOrigins :: "Env \<Rightarrow> string list" where
  "allowedOrigins env = uniq (baseOrigins @ envOrigins env @ devOrigins env)"

text \<open>
  The body of the request as the handler reads it: \<^verbatim>\<open>body.messages\<close> (\<open>None\<close> when the
  member is absent, where \<^verbatim>\<open>?? []\<close> puts the empty list) and \<^verbatim>\<open>body.provider\<close> when it is
  a string.
\<close>

record ChatRequestBody =
  bodyMessages :: "VercelChatMessage list option"
  bodyProvider :: "string option"

text \<open>
  The request: the three headers read, and what \<^verbatim>\<open>await req.json()\<close> gives: the parsed
  body, or the value thrown (a body that is not JSON; it stands as well for a body
  \<^verbatim>\<open>null\<close>, on which reading \<^verbatim>\<open>body.messages\<close> throws).
\<close>

record ChatRequest =
  originHeader :: "string option"
  userIdHeader :: "string option"
  tenantIdHeader :: "string option"
  jsonBody :: "thrown + ChatRequestBody"

text \<open>
  The call to the provider layer, written down by what goes into it: the question and
  the history handed to the prompt builder (a pure function of the two), and the provider.
\<close>

record UpstreamCall =
  callQuestion :: string
  callChatHistory :: "string option"
  callProvider :: string

text \<open>
  What the handler takes from outside: \<^verbatim>\<open>crypto.randomUUID()\<close>, the time stamp written into
  the metadata, \<^verbatim>\<open>normalizeProviderName\<close> of \<^verbatim>\<open>lib/providers/types\<close> (not part of the
  sources at hand, so it is a parameter: it returns a provider name or throws), and
  \<^verbatim>\<open>chatCompletionStream\<close>, the provider layer, which returns the opened stream and the
  model name or throws.
\<close>

record World =
  randomUUID :: string
  isoTimestamp :: string
  normalizeProviderName :: "string option \<Rightarrow> thrown + string"
  chatCompletionStream :: "UpstreamCall \<Rightarrow> thrown + (ChatCompletionStream \<times> string)"

definition resolveProvider :: "World \<Rightarrow> Env \<Rightarrow> string option \<Rightarrow> thrown + string" where
  "resolveProvider w env provider =
     (if truthy provider then normalizeProviderName w provider
      else normalizeProviderName w (PROVIDER env))"

text \<open>
  The response: a JSON body \<^verbatim>\<open>{error}\<close> with a status, or the event stream (status 200)
  with the records of its body; both carry \<^verbatim>\<open>Access-Control-Allow-Origin\<close>.
\<close>

datatype NextResponse =
  JsonResponse nat "string option" string
| StreamResponse "string list" string

fun status :: "NextResponse \<Rightarrow> nat" where
  "status (JsonResponse code err allow) = code"
| "status (StreamResponse records allow) = 200"

text \<open>What the handler did besides answering: calls to the provider layer, lines logged.\<close>

record Effects =
  upstreamCalls :: "UpstreamCall list"
  performanceLogs :: "LogRecord list"

definition noEffects :: Effects where
  "noEffects = \<lparr>upstreamCalls = [], performanceLogs = []\<rparr>"

definition createPerformanceMetrics :: "World \<Rightarrow> PerformanceMetrics" where
  "createPerformanceMetrics w = \<lparr>requestId = randomUUID w, messageCount = 0, errorCount = 0\<rparr>"

definition metadataJson :: "World \<Rightarrow> PerformanceMetrics \<Rightarrow> string \<Rightarrow> string \<Rightarrow> string" where
  "metadataJson w metrics model provider =
     stringifyObject
       [(''requestId'', requestId metrics), (''timestamp'', isoTimestamp w),
        (''model'', model), (''provider'', provider)]"

text \<open>
  The \<^verbatim>\<open>try\<close> block of the handler: \<open>Inl\<close> is a throw that reaches the outer \<^verbatim>\<open>catch\<close>,
  with the effects up to it; \<open>Inr\<close> is the response returned. The validation counts an
  error in the metrics before it answers 400; nothing reads the metrics after that.
\<close>

definition tryBlock ::
  "World \<Rightarrow> Env \<Rightarrow> PerformanceMetrics \<Rightarrow> string \<Rightarrow> ChatRequest
     \<Rightarrow> (thrown \<times> Effects) + (NextResponse \<times> Effects)" where
  "tryBlock w env metrics effectiveOrigin req =
     (case jsonBody req of
        Inl e \<Rightarrow> Inl (e, noEffects)
      | Inr body \<Rightarrow>
          (let messages = (case bodyMessages body of None \<Rightarrow> [] | Some ms \<Rightarrow> ms)
           in case resolveProvider w env (bodyProvider body) of
                Inl e \<Rightarrow> Inl (e, noEffects)
              | Inr provider \<Rightarrow>
                  if messages = [] \<or> content (last messages) = []
                  then Inr (JsonResponse 400 (Some ''Invalid request: missing messages or content'')
                              effectiveOrigin, noEffects)
                  else
                    (let formattedPreviousMessages = map formatMessage (butlast messages);
                         chatHistory = join [LF] formattedPreviousMessages;
                         currentMessageContent = content (last messages);
                         call = \<lparr>callQuestion = currentMessageContent,
                                 callChatHistory = (if chatHistory = [] then None else Some chatHistory),
                                 callProvider = provider\<rparr>
                     in case chatCompletionStream w call of
                          Inl e \<Rightarrow> Inl (e, \<lparr>upstreamCalls = [call], performanceLogs = []\<rparr>)
                        | Inr (stream, model) \<Rightarrow>
                            (case start metrics (metadataJson w metrics model provider) stream of
                               (records, metrics', logged) \<Rightarrow>
                                 Inr (StreamResponse records effectiveOrigin,
                                      \<lparr>upstreamCalls = [call], performanceLogs = [logged]\<rparr>)))))"

text \<open>
  The admission checks. \<^verbatim>\<open>allowedOrigins[0]\<close> is the first base origin, as the list starts
  with the base origins.
\<close>

definition originRejected :: "Env \<Rightarrow> ChatRequest \<Rightarrow> bool" where
  "originRejected env req \<longleftrightarrow>
     (case originHeader req of
        None \<Rightarrow> False
      | Some origin \<Rightarrow> origin \<noteq> [] \<and> origin \<notin> set (allowedOrigins env))"

definition firstAllowed :: "Env \<Rightarrow> string" where
  "firstAllowed env = (case allowedOrigins env of [] \<Rightarrow> [] | a # _ \<Rightarrow> a)"

definition effectiveOrigin :: "Env \<Rightarrow> ChatRequest \<Rightarrow> string" where
  "effectiveOrigin env req =
     (case originHeader req of
        None \<Rightarrow> firstAllowed env
      | Some origin \<Rightarrow>
          if origin \<noteq> [] \<and> origin \<in> set (allowedOrigins env) then origin
          else firstAllowed env)"

definition userId :: "Env \<Rightarrow> ChatRequest \<Rightarrow> string option" where
  "userId env req =
     (case userIdHeader req of
        Some h \<Rightarrow> Some h
      | None \<Rightarrow>
          if NODE_ENV env = Some ''production'' then None
          else Some (orElse (DEFAULT_INTERNAL_USER_ID env) ''dev-user''))"

definition tenantId :: "Env \<Rightarrow> ChatRequest \<Rightarrow> string option" where
  "tenantId env req =
     (case tenantIdHeader req of
        Some h \<Rightarrow> Some h
      | None \<Rightarrow>
          if NODE_ENV env = Some ''production'' then None
          else Some (orElse (DEFAULT_TENANT_ID env) ''dev-tenant''))"

definition identityMissing :: "Env \<Rightarrow> ChatRequest \<Rightarrow> bool" where
  "identityMissing env req \<longleftrightarrow> \<not> truthy (userId env req) \<or> \<not> truthy (tenantId env req)"

text \<open>
  The handler: the origin check, the identity check, then the \<^verbatim>\<open>try\<close> block, whose throws
  the \<^verbatim>\<open>catch\<close> counts, logs and answers with status 500.
\<close>

definition POST :: "World \<Rightarrow> Env \<Rightarrow> ChatRequest \<Rightarrow> NextResponse \<times> Effects" where
  "POST w env req =
     (let metrics = createPerformanceMetrics w
      in if originRejected env req
         then (JsonResponse 403 (Some ''Origin not allowed.'') (firstAllowed env), noEffects)
         else if identityMissing env req
         then (JsonResponse 401 (Some ''Missing authentication context.'')
                 (effectiveOrigin env req), noEffects)
         else
           (case tryBlock w env metrics (effectiveOrigin env req) req of
              Inr answered \<Rightarrow> answered
            | Inl (e, effects) \<Rightarrow>
                (let metrics' = metrics\<lparr>errorCount := errorCount metrics + 1\<rparr>
                 in (JsonResponse 500 (thrownMessage e) (effectiveOrigin env req),
                     effects\<lparr>performanceLogs :=
                       performanceLogs effects @ [logPerformanceMetrics metrics' (Some e)]\<rparr>))))"

section \<open>The client hook \<^verbatim>\<open>useChat\<close>\<close>

subsection \<open>Session state\<close>

datatype ConnectionStatus = DISCONNECTED | CONNECTING | CONNECTED | CONNECTION_ERROR

text \<open>A value of type \<^verbatim>\<open>unknown\<close> in a message's metadata or in the side-channel payload.\<close>

datatype JSValue = JSNull | JSBool bool | JSNumber int | JSString string

type_synonym JSObject = "(string \<times> JSValue) list"

text \<open>
  \<^verbatim>\<open>interface ChatMessage { role; content; timestamp?; metadata? }\<close>. The time stamp is a
  wall-clock value that nothing reads; it is left out.
\<close>

record ChatMessage = VercelChatMessage +
  metadata :: "JSObject option"

text \<open>What \<^verbatim>\<open>fetch\<close> was called with: the URL and the body \<^verbatim>\<open>{messages, ...(payload ?? {})}\<close>.\<close>

record FetchRequest =
  fetchUrl :: string
  fetchMessages :: "ChatMessage list"
  fetchPayload :: JSObject

record UseChatOptions =
  apiUrl :: string
  maxRetries :: "nat option"

text \<open>
  The calls of \<^verbatim>\<open>setMessages\<close> in the hook, one constructor for each: the list given by
  \<^verbatim>\<open>sendMessageCore\<close> and \<^verbatim>\<open>clearMessages\<close>; the updater of \<^verbatim>\<open>handleStreamingResponse\<close>
  that appends the empty assistant message; the updater of the \<^verbatim>\<open>content\<close> case, with the
  request id of the call that queued it and the fragment; the updater for a response that
  is not \<^verbatim>\<open>ok\<close>, with the error message; the updater of the \<^verbatim>\<open>catch\<close> block, with the message
  it appends.
\<close>

datatype MessagesUpdate =
  SetTo "ChatMessage list"
| AddStreaming string
| AddFragment string string
| MarkFailed string
| Add ChatMessage

text \<open>
  The state of the hook. React does not run an updater when \<^verbatim>\<open>setMessages\<close> is called: it
  queues it and runs the queue, in order, when it next renders. So the list of messages
  is kept as of the last render, together with the updates queued since. The two refs are
  plain variables, written at once. The other cells of \<^verbatim>\<open>useState\<close> are only ever set to a
  value or counted up, and hold what the calls so far amount to. \<open>dispatched\<close> lists the
  requests given to \<^verbatim>\<open>fetch\<close>, oldest first. The callbacks of the options are optional
  and taken as not supplied.
\<close>

record ChatState =
  messages :: "ChatMessage list"
  updates :: "MessagesUpdate list"
  isLoading :: bool
  error :: "string option"
  retryCount :: nat
  connectionStatus :: ConnectionStatus
  streamingMessageRef :: "(nat \<times> string) option"
  lastPayloadRef :: "JSObject option"
  dispatched :: "FetchRequest list"

definition initialState :: ChatState where
  "initialState =
     \<lparr>messages = [], updates = [], isLoading = False, error = None, retryCount = 0,
      connectionStatus = DISCONNECTED, streamingMessageRef = None, lastPayloadRef = None,
      dispatched = []\<rparr>"

text \<open>A call of \<^verbatim>\<open>setMessages\<close>.\<close>

definition setMessages :: "MessagesUpdate \<Rightarrow> ChatState \<Rightarrow> ChatState" where
  "setMessages u s = s\<lparr>updates := updates s @ [u]\<rparr>"

text \<open>
  The updater of the \<^verbatim>\<open>content\<close> case, as React runs it: it reads
  \<^verbatim>\<open>streamingMessageRef.current\<close> at that moment, and appends the fragment only when the
  ref holds the request id of the call that queued the updater and its index is in the
  list.
\<close>

definition appendContent :: "string \<Rightarrow> string \<Rightarrow> ChatState \<Rightarrow> ChatState" where
  "appendContent reqId fragment s =
     (case streamingMessageRef s of
        None \<Rightarrow> s
      | Some (index, contextId) \<Rightarrow>
          if contextId \<noteq> reqId then s
          else if index < length (messages s)
          then (let target = messages s ! index
                in s\<lparr>messages := (messages s)[index := target\<lparr>content := content target @ fragment\<rparr>]\<rparr>)
          else s)"

text \<open>
  The updater for a response that is not \<^verbatim>\<open>ok\<close>: the last message, when it is the
  assistant's, is overwritten and flagged, otherwise a flagged message is pushed.
  \<^verbatim>\<open>{...metadata, error: true}\<close> keeps the place of a key that is there and appends a new one.
\<close>

definition flagError :: "string \<Rightarrow> ChatMessage list \<Rightarrow> ChatMessage list" where
  "flagError errorMessage prev =
     (if prev = [] then prev
      else (let lastMessage = last prev
            in if role lastMessage = Assistant
               then butlast prev @
                      [lastMessage\<lparr>content := errorMessage,
                                   metadata := Some (AList.update ''error'' (JSBool True)
                                     (case metadata lastMessage of None \<Rightarrow> [] | Some m \<Rightarrow> m))\<rparr>]
               else prev @
                      [\<lparr>role = Assistant, content = errorMessage,
                        metadata = Some [(''error'', JSBool True)]\<rparr>]))"

text \<open>
  One queued update, run. The updater of \<^verbatim>\<open>handleStreamingResponse\<close> also writes
  \<^verbatim>\<open>streamingMessageRef.current\<close>: the index of the message it appends and the request id.
\<close>

fun runUpdate :: "MessagesUpdate \<Rightarrow> ChatState \<Rightarrow> ChatState" where
  "runUpdate (SetTo ms) s = s\<lparr>messages := ms\<rparr>"
| "runUpdate (AddStreaming reqId) s =
     s\<lparr>messages := messages s @ [\<lparr>role = Assistant, content = [], metadata = None\<rparr>],
       streamingMessageRef := Some (length (messages s), reqId)\<rparr>"
| "runUpdate (AddFragment reqId fragment) s = appendContent reqId fragment s"
| "runUpdate (MarkFailed errorMessage) s = s\<lparr>messages := flagError errorMessage (messages s)\<rparr>"
| "runUpdate (Add m) s = s\<lparr>messages := messages s @ [m]\<rparr>"

text \<open>React renders: the queue is run, in order, and is empty afterwards.\<close>

definition render :: "ChatState \<Rightarrow> ChatState" where
  "render s = fold runUpdate (updates s) (s\<lparr>updates := []\<rparr>)"

text \<open>
  What the functions returned by one render have captured: \<^verbatim>\<open>sendMessageCore\<close> depends on
  \<^verbatim>\<open>isLoading\<close>, \<^verbatim>\<open>sendMessage\<close> on \<^verbatim>\<open>messages\<close>, \<^verbatim>\<open>retry\<close> on \<^verbatim>\<open>retryCount\<close> and
  \<^verbatim>\<open>messages\<close>, and the latter two on the \<^verbatim>\<open>sendMessageCore\<close> of the same render. A call
  reads these values, whatever the state has become since that render.
\<close>

record Closure =
  capturedMessages :: "ChatMessage list"
  capturedIsLoading :: bool
  capturedRetryCount :: nat

text \<open>The functions that the hook returns when React renders the state \<open>s\<close>.\<close>

definition closureOf :: "ChatState \<Rightarrow> Closure" where
  "closureOf s =
     \<lparr>capturedMessages = messages (render s), capturedIsLoading = isLoading s,
      capturedRetryCount = retryCount s\<rparr>"

definition clearMessages :: "ChatState \<Rightarrow> ChatState" where
  "clearMessages s = (setMessages (SetTo []) s)\<lparr>error := None, retryCount := 0\<rparr>"

subsection \<open>What the network gives back\<close>

text \<open>
  The body of a response that is not \<^verbatim>\<open>ok\<close>, as the hook reads it: \<^verbatim>\<open>response.json()\<close>
  resolves and \<^verbatim>\<open>errorPayload?.error\<close> is the given string or absent; or it rejects and
  \<^verbatim>\<open>response.text()\<close> resolves with a text or rejects as well.
\<close>

datatype ErrorBody = JsonResolves "string option" | JsonRejects "string option"

text \<open>
  The body of an \<^verbatim>\<open>ok\<close> response: what the successive \<^verbatim>\<open>reader.read()\<close> calls give, each
  value already decoded to text, until the stream is done or a read rejects. Whether
  React gets to render while the function waits for a read is not in the hands of the
  code: each read says whether React has rendered since the function began to wait for
  it, and \<open>renderedAtEnd\<close> says so for the last wait, the one that ends the stream.
\<close>

record ResponseBody =
  reads :: "(bool \<times> string) list"
  renderedAtEnd :: bool
  readFailure :: "thrown option"

datatype FetchOutcome =
  FetchRejects thrown
| NotOk nat ErrorBody
| Ok "ResponseBody option"

subsection \<open>\<^verbatim>\<open>handleStreamingResponse\<close>\<close>

text \<open>Whether the function went on or left by \<^verbatim>\<open>return\<close>.\<close>

datatype Flow = Continue | Return

text \<open>
  The \<^verbatim>\<open>switch\<close> on the type of a parsed message. The \<^verbatim>\<open>metadata\<close> case writes only the
  metrics, which are not part of the state here; the \<^verbatim>\<open>content\<close> case queues its updater;
  \<^verbatim>\<open>done\<close> and \<^verbatim>\<open>error\<close> clear the ref and leave the function by \<^verbatim>\<open>return\<close>.
\<close>

definition applyMessage :: "string \<Rightarrow> SSEMessage \<Rightarrow> ChatState \<Rightarrow> Flow \<times> ChatState" where
  "applyMessage reqId sseMsg s =
     (case msgType sseMsg of
        METADATA \<Rightarrow> (Continue, s)
      | CONTENT \<Rightarrow> (Continue, setMessages (AddFragment reqId (msgData sseMsg)) s)
      | DONE \<Rightarrow>
          (Return, s\<lparr>streamingMessageRef := None, connectionStatus := DISCONNECTED\<rparr>)
      | ERROR \<Rightarrow>
          (Return, s\<lparr>streamingMessageRef := None,
                     error := Some (msgData sseMsg),
                     connectionStatus := CONNECTION_ERROR\<rparr>))"

text \<open>
  One line of a chunk. \<open>parse\<close> is \<^verbatim>\<open>JSON.parse\<close> read as an \<^verbatim>\<open>SSEMessage\<close>: \<open>None\<close> when it
  throws or when the \<^verbatim>\<open>type\<close> of the value is none of the four, which the \<^verbatim>\<open>catch\<close> and
  the \<^verbatim>\<open>switch\<close> both pass over.
\<close>

definition handleLine ::
  "(string \<Rightarrow> SSEMessage option) \<Rightarrow> string \<Rightarrow> string \<Rightarrow> ChatState \<Rightarrow> Flow \<times> ChatState" where
  "handleLine parse reqId line s =
     (if startsWith line ''data: ''
      then (let d = drop 6 line
            in if trim d = [] then (Continue, s)
               else (case parse d of
                       None \<Rightarrow> (Continue, s)
                     | Some sseMsg \<Rightarrow> applyMessage reqId sseMsg s))
      else (Continue, s))"

text \<open>The \<^verbatim>\<open>for\<close> loop over the lines of one chunk.\<close>

fun handleLines ::
  "(string \<Rightarrow> SSEMessage option) \<Rightarrow> string \<Rightarrow> string list \<Rightarrow> ChatState \<Rightarrow> Flow \<times> ChatState" where
  "handleLines parse reqId [] s = (Continue, s)"
| "handleLines parse reqId (line # rest) s =
     (case handleLine parse reqId line s of
        (Return, s') \<Rightarrow> (Return, s')
      | (Continue, s') \<Rightarrow> handleLines parse reqId rest s')"

text \<open>How a block ended: it completed (or returned), or it threw.\<close>

datatype Completion = Completed | Threw thrown

text \<open>
  The \<^verbatim>\<open>while (true)\<close> loop: one round for each read, until one is done or rejects. The
  lines of one read are handled without a pause, so React renders, if it does, only
  while the function waits.
\<close>

fun readLoop ::
  "(string \<Rightarrow> SSEMessage option) \<Rightarrow> string \<Rightarrow> (bool \<times> string) list \<Rightarrow> bool \<Rightarrow> thrown option
     \<Rightarrow> ChatState \<Rightarrow> Completion \<times> ChatState" where
  "readLoop parse reqId [] atEnd ending s =
     (let s0 = (if atEnd then render s else s)
      in case ending of None \<Rightarrow> (Completed, s0) | Some e \<Rightarrow> (Threw e, s0))"
| "readLoop parse reqId ((rendered, chunk) # rest) atEnd ending s =
     (let s0 = (if rendered then render s else s)
      in case handleLines parse reqId (split LF chunk) s0 of
           (Return, s') \<Rightarrow> (Completed, s')
         | (Continue, s') \<Rightarrow> readLoop parse reqId rest atEnd ending s')"

text \<open>
  Without a body the function throws at once. Otherwise it queues the updater that
  appends the assistant message, sets the status, and reads; its \<^verbatim>\<open>finally\<close> block clears
  the ref and sets the status on every way out.
\<close>

definition handleStreamingResponse ::
  "(string \<Rightarrow> SSEMessage option) \<Rightarrow> string \<Rightarrow> ResponseBody option \<Rightarrow> ChatState
     \<Rightarrow> Completion \<times> ChatState" where
  "handleStreamingResponse parse reqId body s =
     (case body of
        None \<Rightarrow> (Threw (Error ''No response body''), s)
      | Some b \<Rightarrow>
          (let s1 = (setMessages (AddStreaming reqId) s)\<lparr>connectionStatus := CONNECTED\<rparr>
           in case readLoop parse reqId (reads b) (renderedAtEnd b) (readFailure b) s1 of
                (completion, s2) \<Rightarrow>
                  (completion,
                   s2\<lparr>streamingMessageRef := None, connectionStatus := DISCONNECTED\<rparr>)))"

subsection \<open>\<^verbatim>\<open>sendMessageCore\<close>\<close>

text \<open>
  The guard: \<^verbatim>\<open>!content.trim() || isLoading\<close>, with the \<^verbatim>\<open>isLoading\<close> that the function has
  captured.
\<close>

definition guardRejects :: "Closure \<Rightarrow> string \<Rightarrow> bool" where
  "guardRejects c text \<longleftrightarrow> trim text = [] \<or> capturedIsLoading c"

text \<open>
  Past the guard, up to \<^verbatim>\<open>await fetch(...)\<close>: the payload is cached, the user message
  appended to the history handed in, and the request dispatched.
\<close>

definition dispatch ::
  "UseChatOptions \<Rightarrow> string \<Rightarrow> ChatMessage list \<Rightarrow> JSObject option \<Rightarrow> ChatState \<Rightarrow> ChatState" where
  "dispatch options text currentMessages payload s =
     (let userMessage = \<lparr>role = User, content = trim text, metadata = None\<rparr>;
          newMessages = currentMessages @ [userMessage]
      in (setMessages (SetTo newMessages) s)
           \<lparr>lastPayloadRef := payload,
            error := None,
            connectionStatus := CONNECTING,
            isLoading := True,
            dispatched := dispatched s @
              [\<lparr>fetchUrl = apiUrl options, fetchMessages = newMessages,
                fetchPayload = (case payload of None \<Rightarrow> [] | Some p \<Rightarrow> p)\<rparr>]\<rparr>)"

text \<open>The error message shown for a response that is not \<^verbatim>\<open>ok\<close>.\<close>

definition errorMessageFor :: "nat \<Rightarrow> ErrorBody \<Rightarrow> string" where
  "errorMessageFor code body =
     (case body of
        JsonResolves None \<Rightarrow> ''Request failed with status '' @ showNat code
      | JsonResolves (Some err) \<Rightarrow>
          (if err = [] then ''Request failed with status '' @ showNat code else err)
      | JsonRejects (Some txt) \<Rightarrow> txt
      | JsonRejects None \<Rightarrow> ''Request failed with status '' @ showNat code)"

text \<open>The \<^verbatim>\<open>catch\<close> block of \<^verbatim>\<open>sendMessageCore\<close>.\<close>

definition catchError :: "thrown \<Rightarrow> ChatState \<Rightarrow> ChatState" where
  "catchError e s =
     (setMessages
        (Add \<lparr>role = Assistant,
              content = ''Sorry, there was an error processing your request.'',
              metadata = None\<rparr>) s)
       \<lparr>error := thrownMessage e, connectionStatus := CONNECTION_ERROR\<rparr>"

text \<open>
  The function from the moment \<^verbatim>\<open>fetch\<close> settles: \<open>outcome\<close> is what it settled with and
  \<open>reqId\<close> the identifier drawn for the stream. The \<^verbatim>\<open>finally\<close> block ends every path.
\<close>

definition settle ::
  "(string \<Rightarrow> SSEMessage option) \<Rightarrow> FetchOutcome \<Rightarrow> string \<Rightarrow> ChatState \<Rightarrow> ChatState" where
  "settle parse outcome reqId s =
     (let s' =
        (case outcome of
           FetchRejects e \<Rightarrow> catchError e s
         | NotOk code body \<Rightarrow>
             (let errorMessage = errorMessageFor code body
              in (setMessages (MarkFailed errorMessage) s)
                   \<lparr>streamingMessageRef := None,
                    connectionStatus := CONNECTION_ERROR,
                    error := Some errorMessage\<rparr>)
         | Ok body \<Rightarrow>
             (case handleStreamingResponse parse reqId body s of
                (Completed, s1) \<Rightarrow> s1
              | (Threw e, s1) \<Rightarrow> catchError e s1))
      in s'\<lparr>isLoading := False\<rparr>)"

text \<open>The network's part in one call: how \<^verbatim>\<open>fetch\<close> settles and the identifier drawn.\<close>

record Exchange =
  outcome :: FetchOutcome
  streamId :: string

text \<open>
  The function in two parts: up to the moment it waits for \<^verbatim>\<open>fetch\<close> (or has returned at
  the guard), and as a whole.
\<close>

definition sendMessageCoreStart ::
  "UseChatOptions \<Rightarrow> Closure \<Rightarrow> string \<Rightarrow> ChatMessage list \<Rightarrow> JSObject option \<Rightarrow> ChatState
     \<Rightarrow> ChatState" where
  "sendMessageCoreStart options c text currentMessages payload s =
     (if guardRejects c text then s
      else dispatch options text currentMessages payload s)"

definition sendMessageCore ::
  "UseChatOptions \<Rightarrow> (string \<Rightarrow> SSEMessage option) \<Rightarrow> Exchange \<Rightarrow> Closure
     \<Rightarrow> string \<Rightarrow> ChatMessage list \<Rightarrow> JSObject option \<Rightarrow> ChatState \<Rightarrow> ChatState" where
  "sendMessageCore options parse net c text currentMessages payload s =
     (if guardRejects c text then s
      else settle parse (outcome net) (streamId net)
             (sendMessageCoreStart options c text currentMessages payload s))"

subsection \<open>\<^verbatim>\<open>sendMessage\<close> and \<^verbatim>\<open>retry\<close>\<close>

text \<open>
  \<^verbatim>\<open>sendMessage\<close> writes the payload ref and calls \<^verbatim>\<open>sendMessageCore\<close> with the list of
  messages that it has captured; again up to the wait for \<^verbatim>\<open>fetch\<close>, and as a whole.
\<close>

definition sendMessageStart ::
  "UseChatOptions \<Rightarrow> Closure \<Rightarrow> string \<Rightarrow> JSObject option \<Rightarrow> ChatState \<Rightarrow> ChatState" where
  "sendMessageStart options c text payload s =
     sendMessageCoreStart options c text (capturedMessages c) payload
       (s\<lparr>lastPayloadRef := payload\<rparr>)"

definition sendMessage ::
  "UseChatOptions \<Rightarrow> (string \<Rightarrow> SSEMessage option) \<Rightarrow> Exchange \<Rightarrow> Closure
     \<Rightarrow> string \<Rightarrow> JSObject option \<Rightarrow> ChatState \<Rightarrow> ChatState" where
  "sendMessage options parse net c text payload s =
     sendMessageCore options parse net c text (capturedMessages c) payload
       (s\<lparr>lastPayloadRef := payload\<rparr>)"

text \<open>\<^verbatim>\<open>optionsRef.current.maxRetries || 3\<close>: an absent maximum, and the number 0, give 3.\<close>

definition maxRetriesOr3 :: "UseChatOptions \<Rightarrow> nat" where
  "maxRetriesOr3 options =
     (case maxRetries options of None \<Rightarrow> 3 | Some n \<Rightarrow> if n = 0 then 3 else n)"

text \<open>
  \<^verbatim>\<open>retry\<close> compares the \<^verbatim>\<open>retryCount\<close> that it has captured, counts up the cell, and looks
  for the user's message at the end of the list that it has captured.
\<close>

definition retry ::
  "UseChatOptions \<Rightarrow> (string \<Rightarrow> SSEMessage option) \<Rightarrow> Exchange \<Rightarrow> Closure \<Rightarrow> ChatState
     \<Rightarrow> ChatState" where
  "retry options parse net c s =
     (if capturedRetryCount c \<ge> maxRetriesOr3 options
      then s\<lparr>error := Some ''Maximum retry attempts reached''\<rparr>
      else (let s1 = s\<lparr>retryCount := retryCount s + 1, error := None\<rparr>
            in if capturedMessages c = [] then s1
               else (let lastUserMessage = last (capturedMessages c)
                     in if role lastUserMessage = User
                        then sendMessageCore options parse net c (content lastUserMessage)
                               (butlast (capturedMessages c)) (lastPayloadRef s1) s1
                        else s1)))"

subsection \<open>Sessions\<close>

text \<open>
  A session in which every call runs to its end, React renders, and the next call is made
  through the functions of that render.
\<close>

datatype Call = SendMessage Exchange string "JSObject option" | Retry Exchange | ClearMessages

fun perform ::
  "UseChatOptions \<Rightarrow> (string \<Rightarrow> SSEMessage option) \<Rightarrow> Call \<Rightarrow> ChatState \<Rightarrow> ChatState" where
  "perform options parse (SendMessage net text payload) s =
     render (sendMessage options parse net (closureOf s) text payload s)"
| "perform options parse (Retry net) s = render (retry options parse net (closureOf s) s)"
| "perform options parse ClearMessages s = render (clearMessages s)"

definition session ::
  "UseChatOptions \<Rightarrow> (string \<Rightarrow> SSEMessage option) \<Rightarrow> Call list \<Rightarrow> ChatState" where
  "session options parse calls = fold (perform options parse) calls initialState"


section \<open>A reader for the records the relay writes\<close>

text \<open>
  \<^verbatim>\<open>JSON.parse\<close> belongs to the platform, and the client functions above take it as the
  parameter \<open>parse\<close>. To run them on concrete streams, \<open>parseSSEMessage\<close> reads the texts
  that \<^verbatim>\<open>JSON.stringify\<close> writes for an \<^verbatim>\<open>SSEMessage\<close>: an object with the string members
  \<^verbatim>\<open>type\<close>, \<^verbatim>\<open>data\<close> and optionally \<^verbatim>\<open>id\<close>, in this order and without white space. On
  such a text, and on a text cut short, it answers as \<^verbatim>\<open>JSON.parse\<close> does; other texts
  that \<^verbatim>\<open>JSON.parse\<close> accepts it rejects.
\<close>

definition hexValue :: "char \<Rightarrow> nat option" where
  "hexValue c =
     (let n = (of_char c :: nat)
      in if 48 \<le> n \<and> n \<le> 57 then Some (n - 48)
         else if 97 \<le> n \<and> n \<le> 102 then Some (n - 87)
         else if 65 \<le> n \<and> n \<le> 70 then Some (n - 55)
         else None)"

text \<open>The character that a backslash and \<open>e\<close> stand for (\<^verbatim>\<open>\u\<close> apart).\<close>

definition unescape :: "char \<Rightarrow> char option" where
  "unescape e =
     (if e = DQ then Some DQ
      else if e = BSL then Some BSL
      else if e = CHR ''/'' then Some (CHR ''/'')
      else if e = CHR ''b'' then Some (CHR 0x08)
      else if e = CHR ''f'' then Some (CHR 0x0C)
      else if e = CHR ''n'' then Some (CHR 0x0A)
      else if e = CHR ''r'' then Some (CHR 0x0D)
      else if e = CHR ''t'' then Some (CHR 0x09)
      else None)"

definition unicodeEscape :: "char \<Rightarrow> char \<Rightarrow> char \<Rightarrow> char \<Rightarrow> char option" where
  "unicodeEscape a b c d =
     (case (hexValue a, hexValue b, hexValue c, hexValue d) of
        (Some x3, Some x2, Some x1, Some x0) \<Rightarrow>
          (let n = ((x3 * 16 + x2) * 16 + x1) * 16 + x0
           in if n < 256 then Some (char_of n) else None)
      | _ \<Rightarrow> None)"

definition consChar :: "char \<Rightarrow> (string \<times> string) option \<Rightarrow> (string \<times> string) option" where
  "consChar c r = (case r of None \<Rightarrow> None | Some (s, rest) \<Rightarrow> Some (c # s, rest))"

text \<open>
  The characters of a string literal after its opening quote: the string read and the
  text that follows the closing quote.
\<close>

fun readString :: "string \<Rightarrow> (string \<times> string) option" where
  "readString [] = None"
| "readString (c # cs) =
     (if c = DQ then Some ([], cs)
      else if c = BSL then
        (case cs of
           [] \<Rightarrow> None
         | e # r \<Rightarrow>
             (if e = CHR ''u'' then
                (case r of
                   a # b # c' # d # r' \<Rightarrow>
                     (case unicodeEscape a b c' d of
                        None \<Rightarrow> None
                      | Some x \<Rightarrow> consChar x (readString r'))
                 | _ \<Rightarrow> None)
              else (case unescape e of
                      None \<Rightarrow> None
                    | Some x \<Rightarrow> consChar x (readString r))))
      else if (of_char c :: nat) < 32 then None
      else consChar c (readString cs))"

definition expect :: "string \<Rightarrow> string \<Rightarrow> string option" where
  "expect p s = (if startsWith s p then Some (drop (length p) s) else None)"

text \<open>The member \<open>key\<close> with a string value at the head of the text.\<close>

definition readMember :: "string \<Rightarrow> string \<Rightarrow> (string \<times> string) option" where
  "readMember key s =
     (case expect (quoteJSONString key @ '':'' @ [DQ]) s of
        None \<Rightarrow> None
      | Some s' \<Rightarrow> readString s')"

definition eventOfName :: "string \<Rightarrow> SSEEventType option" where
  "eventOfName n =
     (if n = ''content'' then Some CONTENT
      else if n = ''done'' then Some DONE
      else if n = ''error'' then Some ERROR
      else if n = ''metadata'' then Some METADATA
      else None)"

definition readId :: "SSEEventType \<Rightarrow> string \<Rightarrow> string \<Rightarrow> SSEMessage option" where
  "readId ty d s =
     (if s = ''}'' then Some \<lparr>msgType = ty, msgData = d, msgId = None\<rparr>
      else (case expect '','' s of
              None \<Rightarrow> None
            | Some s1 \<Rightarrow>
                (case readMember ''id'' s1 of
                   None \<Rightarrow> None
                 | Some (i, s2) \<Rightarrow>
                     if s2 = ''}'' then Some \<lparr>msgType = ty, msgData = d, msgId = Some i\<rparr>
                     else None)))"

definition readData :: "SSEEventType \<Rightarrow> string \<Rightarrow> SSEMessage option" where
  "readData ty s =
     (case expect '','' s of
        None \<Rightarrow> None
      | Some s1 \<Rightarrow>
          (case readMember ''data'' s1 of
             None \<Rightarrow> None
           | Some (d, s2) \<Rightarrow> readId ty d s2))"

definition parseSSEMessage :: "string \<Rightarrow> SSEMessage option" where
  "parseSSEMessage s =
     (case expect ''{'' s of
        None \<Rightarrow> None
      | Some s0 \<Rightarrow>
          (case readMember ''type'' s0 of
             None \<Rightarrow> None
           | Some (t, s1) \<Rightarrow>
               (case eventOfName t of
                  None \<Rightarrow> None
                | Some ty \<Rightarrow> readData ty s1)))"


section \<open>A stream read message by message\<close>

text \<open>
  The messages of a stream applied one after the other, each after React has rendered, up
  to the first that leaves by \<^verbatim>\<open>return\<close>: what the reader comes to when every record
  arrives in a read of its own and React renders during every wait.
\<close>

fun applyMessages :: "string \<Rightarrow> SSEMessage list \<Rightarrow> ChatState \<Rightarrow> Flow \<times> ChatState" where
  "applyMessages reqId [] s = (Continue, s)"
| "applyMessages reqId (m # ms) s =
     (case applyMessage reqId m (render s) of
        (Return, s') \<Rightarrow> (Return, s')
      | (Continue, s') \<Rightarrow> applyMessages reqId ms s')"

text \<open>
  The text that a stream carries, in the words of the specification: the concatenation, in
  the order of arrival, of the data of its \<^verbatim>\<open>content\<close> frames, up to the terminal frame.
\<close>

definition receivedText :: "SSEMessage list \<Rightarrow> string" where
  "receivedText ms =
     concat (map msgData (filter (\<lambda>m. msgType m = CONTENT)
       (takeWhile (\<lambda>m. msgType m \<noteq> DONE \<and> msgType m \<noteq> ERROR) ms)))"


section \<open>What a render leaves of the roles and the metadata\<close>

text \<open>
  The role and the metadata of a message, and what one queued update makes of the roles and
  metadata of a list: the updater of the \<^verbatim>\<open>content\<close> case touches neither, and none of the
  others reads the ref.
\<close>

definition shape :: "ChatMessage \<Rightarrow> Role \<times> JSObject option" where
  "shape m = (role m, metadata m)"

fun shapeAfter ::
  "MessagesUpdate \<Rightarrow> (Role \<times> JSObject option) list \<Rightarrow> (Role \<times> JSObject option) list" where
  "shapeAfter (SetTo ms) sh = map shape ms"
| "shapeAfter (AddStreaming reqId) sh = sh @ [(Assistant, None)]"
| "shapeAfter (AddFragment reqId fragment) sh = sh"
| "shapeAfter (MarkFailed errorMessage) sh =
     (if sh = [] then sh
      else if fst (last sh) = Assistant
      then butlast sh @
             [(Assistant, Some (AList.update ''error'' (JSBool True)
                (case snd (last sh) of None \<Rightarrow> [] | Some m \<Rightarrow> m)))]
      else sh @ [(Assistant, Some [(''error'', JSBool True)])])"
| "shapeAfter (Add m) sh = sh @ [shape m]"

text \<open>The roles and metadata of the list that the next render shows.\<close>

definition finalShape :: "ChatState \<Rightarrow> (Role \<times> JSObject option) list" where
  "finalShape s = fold shapeAfter (updates s) (map shape (messages s))"


section \<open>Scenarios\<close>

text \<open>
  Modelled from the spec: \<^verbatim>\<open>normalizeProviderName\<close> of \<^verbatim>\<open>lib/providers/types\<close> is not among
  the sources. The specification describes the resolver as a lookup that falls back to a
  default when no selector is given and that fails loudly on a selector it does not
  recognise; the provider table of \<^verbatim>\<open>modelProvider.ts\<close> names \<^verbatim>\<open>openai\<close> and \<^verbatim>\<open>qwen\<close>. It is
  used in the scenarios only; the handler takes the function as a parameter.
\<close>

definition strictNormalize :: "string option \<Rightarrow> thrown + string" where
  "strictNormalize selector =
     (case selector of
        None \<Rightarrow> Inr ''openai''
      | Some n \<Rightarrow>
          if n = ''openai'' \<or> n = ''qwen'' then Inr n
          else Inl (Error (''Unsupported provider: '' @ n)))"

text \<open>A chunk whose first choice carries the token \<open>t\<close>.\<close>

definition tokenChunk :: "string \<Rightarrow> ChatCompletionChunk option" where
  "tokenChunk t = Some \<lparr>choices = Some [\<lparr>delta = Some \<lparr>deltaContent = Some t\<rparr>\<rparr>]\<rparr>"

text \<open>A chunk whose first choice has a delta without content (a role or a finish chunk).\<close>

definition emptyChunk :: "ChatCompletionChunk option" where
  "emptyChunk = Some \<lparr>choices = Some [\<lparr>delta = Some \<lparr>deltaContent = None\<rparr>\<rparr>]\<rparr>"

text \<open>A world in which the provider layer opens the given stream.\<close>

definition demoWorld :: "ChatCompletionStream \<Rightarrow> World" where
  "demoWorld stream =
     \<lparr>randomUUID = ''req-1'', isoTimestamp = ''2025-01-01T00:00:00.000Z'',
      normalizeProviderName = strictNormalize,
      chatCompletionStream = (\<lambda>call. Inr (stream, ''gpt-4o-mini''))\<rparr>"

text \<open>A development deployment: no variable set.\<close>

definition demoEnv :: Env where
  "demoEnv =
     \<lparr>ALLOWED_ORIGINS = None, NODE_ENV = None, DEFAULT_INTERNAL_USER_ID = None,
      DEFAULT_TENANT_ID = None, PROVIDER = None\<rparr>"

definition demoRequest :: "string option \<Rightarrow> ChatRequestBody \<Rightarrow> ChatRequest" where
  "demoRequest origin body =
     \<lparr>originHeader = origin, userIdHeader = None, tenantIdHeader = None, jsonBody = Inr body\<rparr>"

definition hiBody :: ChatRequestBody where
  "hiBody = \<lparr>bodyMessages = Some [\<lparr>role = User, content = ''hi''\<rparr>], bodyProvider = None\<rparr>"

definition demoOptions :: UseChatOptions where
  "demoOptions = \<lparr>apiUrl = ''/api/chat'', maxRetries = None\<rparr>"

text \<open>The records of the body of a streamed response.\<close>

definition streamed :: "NextResponse \<Rightarrow> string list" where
  "streamed r =
     (case r of
        StreamResponse records allow \<Rightarrow> records
      | JsonResponse code err allow \<Rightarrow> [])"

text \<open>
  An exchange in which the response is \<^verbatim>\<open>ok\<close> and delivers the given reads, React
  rendering during every wait.
\<close>

definition delivering :: "string list \<Rightarrow> Exchange" where
  "delivering rs =
     \<lparr>outcome = Ok (Some \<lparr>reads = map (Pair True) rs, renderedAtEnd = True, readFailure = None\<rparr>),
      streamId = ''stream-1''\<rparr>"

definition userSays :: "string \<Rightarrow> ChatMessage" where
  "userSays t = \<lparr>role = User, content = t, metadata = None\<rparr>"

definition assistantSays :: "string \<Rightarrow> ChatMessage" where
  "assistantSays t = \<lparr>role = Assistant, content = t, metadata = None\<rparr>"

text \<open>Request bodies with no messages: one names no provider, one a provider nobody knows.\<close>

definition emptyBody :: ChatRequestBody where
  "emptyBody = \<lparr>bodyMessages = Some [], bodyProvider = None\<rparr>"

definition bogusBody :: ChatRequestBody where
  "bogusBody = \<lparr>bodyMessages = Some [], bodyProvider = Some ''bogus''\<rparr>"

text \<open>
  Two provider streams: one yields two fragments and then throws, one yields the same two
  fragments around a chunk without content and ends.
\<close>

definition abortedStream :: ChatCompletionStream where
  "abortedStream =
     \<lparr>chunks = [tokenChunk ''Hel'', tokenChunk ''lo''], failure = Some (Error ''boom'')\<rparr>"

definition completeStream :: ChatCompletionStream where
  "completeStream =
     \<lparr>chunks = [tokenChunk ''Hel'', emptyChunk, tokenChunk ''lo''], failure = None\<rparr>"

text \<open>The records that the relay writes for the request \<^verbatim>\<open>hi\<close> on either stream.\<close>

definition abortedRecords :: "string list" where
  "abortedRecords =
     streamed (fst (POST (demoWorld abortedStream) demoEnv (demoRequest None hiBody)))"

definition completeRecords :: "string list" where
  "completeRecords =
     streamed (fst (POST (demoWorld completeStream) demoEnv (demoRequest None hiBody)))"

text \<open>
  The same bytes as \<open>completeRecords\<close>, with the first content record arriving in two
  reads: its first 20 characters, then the rest.
\<close>

definition splitReads :: "string list" where
  "splitReads =
     [completeRecords ! 0, take 20 (completeRecords ! 1), drop 20 (completeRecords ! 1),
      completeRecords ! 2, completeRecords ! 3]"

text \<open>The event type of a record on the wire, as the reader of the relay's records sees it.\<close>

definition recordType :: "string \<Rightarrow> SSEEventType option" where
  "recordType r = map_option msgType (parseSSEMessage (drop 6 (take (length r - 2) r)))"

text \<open>Options whose maximum of retries is the number 0.\<close>

definition zeroOptions :: UseChatOptions where
  "zeroOptions = \<lparr>apiUrl = ''/api/chat'', maxRetries = Some 0\<rparr>"

text \<open>The functions of the first render of a session.\<close>

definition firstRender :: Closure where
  "firstRender = closureOf initialState"

text \<open>
  A session whose first call of \<^verbatim>\<open>sendMessage\<close> waits for \<^verbatim>\<open>fetch\<close>: a request is in
  flight.
\<close>

definition inFlight :: ChatState where
  "inFlight = sendMessageStart demoOptions firstRender ''hi'' None initialState"

text \<open>
  A second call of \<^verbatim>\<open>sendMessage\<close> at that moment, through the same functions: React has
  not rendered in between.
\<close>

definition sentTwice :: ChatState where
  "sentTwice = sendMessageStart demoOptions firstRender ''again'' None inFlight"

text \<open>A fresh session after two and three calls of \<^verbatim>\<open>retry\<close>, React rendering after each.\<close>

definition retriedTwice :: ChatState where
  "retriedTwice =
     session demoOptions parseSSEMessage [Retry (delivering []), Retry (delivering [])]"

definition retriedThrice :: ChatState where
  "retriedThrice = perform demoOptions parseSSEMessage (Retry (delivering [])) retriedTwice"

text \<open>A session whose only request was answered with status 500 and \<^verbatim>\<open>{error: 'boom'}\<close>.\<close>

definition failedOnce :: ChatState where
  "failedOnce =
     session demoOptions parseSSEMessage
       [SendMessage \<lparr>outcome = NotOk 500 (JsonResolves (Some ''boom'')), streamId = ''stream-1''\<rparr>
          ''hi'' (Some [(''provider'', JSString ''qwen'')])]"


text \<open>Chunks of the provider's stream that carry no string at the place the relay reads.\<close>

definition noChoices :: "ChatCompletionChunk option" where
  "noChoices = Some \<lparr>choices = None\<rparr>"

definition zeroChoices :: "ChatCompletionChunk option" where
  "zeroChoices = Some \<lparr>choices = Some []\<rparr>"

definition noDelta :: "ChatCompletionChunk option" where
  "noDelta = Some \<lparr>choices = Some [\<lparr>delta = None\<rparr>]\<rparr>"

text \<open>A chunk whose second choice carries a string, its first none.\<close>

definition secondChoiceOnly :: "ChatCompletionChunk option" where
  "secondChoiceOnly =
     Some \<lparr>choices = Some [\<lparr>delta = Some \<lparr>deltaContent = None\<rparr>\<rparr>,
                            \<lparr>delta = Some \<lparr>deltaContent = Some ''x''\<rparr>\<rparr>]\<rparr>"

text \<open>The chunks of a stream in which only the first and the last carry a string.\<close>

definition mixedChunks :: "ChatCompletionChunk option list" where
  "mixedChunks =
     [tokenChunk ''Hel'', emptyChunk, None, noChoices, zeroChoices, noDelta, secondChoiceOnly,
      tokenChunk []]"

text \<open>
  A production deployment whose \<^verbatim>\<open>ALLOWED_ORIGINS\<close> names one origin, written after a
  no-break space.
\<close>

definition nbspEnv :: Env where
  "nbspEnv =
     \<lparr>ALLOWED_ORIGINS = Some (CHR 0xA0 # ''https://a.example''), NODE_ENV = Some ''production'',
      DEFAULT_INTERNAL_USER_ID = None, DEFAULT_TENANT_ID = None, PROVIDER = None\<rparr>"

text \<open>
  The records of either stream in a single read, and an exchange that delivers its reads
  while React renders during no wait but the last.
\<close>

definition singleRead :: "string list \<Rightarrow> string list" where
  "singleRead records = [concat records]"

definition deliveringUnrendered :: "string list \<Rightarrow> Exchange" where
  "deliveringUnrendered rs =
     \<lparr>outcome = Ok (Some \<lparr>reads = map (Pair False) rs, renderedAtEnd = True, readFailure = None\<rparr>),
      streamId = ''stream-1''\<rparr>"


section \<open>The relay: order of the frames\<close>

text \<open>
  The loop in closed form: the tokens that are strings, numbered from the count on entry,
  each as one \<^verbatim>\<open>content\<close> record; the count grows by their number.
\<close>

lemma relayChunks_unfold:
  "relayChunks metrics queue cs =
     (metrics\<lparr>messageCount := messageCount metrics + length (List.map_filter tokenOf cs)\<rparr>,
      queue @ map (\<lambda>(k, token). buildSSEMessage CONTENT token
                     (Some (requestId metrics @ ''-'' @ showNat k)))
                (enumerate (Suc (messageCount metrics)) (List.map_filter tokenOf cs)))"
proof (induction cs arbitrary: metrics queue)
  case Nil
  show ?case by simp
next
  case (Cons chunk rest)
  show ?case
  proof (cases "tokenOf chunk")
    case None
    then show ?thesis using Cons.IH by simp
  next
    case (Some token)
    then show ?thesis by (simp add: Cons.IH Let_def)
  qed
qed

text \<open>
  Claim C10. The token that the loop reads from a chunk is a string exactly when the chunk
  is there, has a first choice, that choice has a delta, and the content of the delta is
  a string; the token is then that string. For such a chunk the loop counts one fragment
  more and writes one \<^verbatim>\<open>content\<close> record, which carries the string, and the new count in its
  identifier; any other chunk is skipped: nothing is written for it and the count stays.
  So the records written by the loop are those of the string tokens of the chunks, in
  order, and nothing else; the fragment count grows by the number of string tokens, and
  the identifiers of the records number them without gaps.
\<close>

theorem relay_content_frames:
  "(tokenOf chunk = Some token \<longleftrightarrow>
      (\<exists>c c0 others d. chunk = Some c \<and> choices c = Some (c0 # others) \<and>
          delta c0 = Some d \<and> deltaContent d = Some token)) \<and>
   ((\<exists>c c0 others d. chunk = Some c \<and> choices c = Some (c0 # others) \<and>
          delta c0 = Some d \<and> deltaContent d = Some token) \<longrightarrow>
      relayChunks metrics queue (chunk # rest) =
        relayChunks (metrics\<lparr>messageCount := messageCount metrics + 1\<rparr>)
          (queue @ [buildSSEMessage CONTENT token
                      (Some (requestId metrics @ ''-'' @ showNat (messageCount metrics + 1)))])
          rest) \<and>
   (\<not> (\<exists>c c0 others d t. chunk = Some c \<and> choices c = Some (c0 # others) \<and>
          delta c0 = Some d \<and> deltaContent d = Some t) \<longrightarrow>
      relayChunks metrics queue (chunk # rest) = relayChunks metrics queue rest) \<and>
   relayChunks metrics queue cs =
     (metrics\<lparr>messageCount := messageCount metrics + length (List.map_filter tokenOf cs)\<rparr>,
      queue @ map (\<lambda>(k, token). buildSSEMessage CONTENT token
                     (Some (requestId metrics @ ''-'' @ showNat k)))
                (enumerate (Suc (messageCount metrics)) (List.map_filter tokenOf cs)))"
proof -
  have e: "tokenOf chunk = Some t \<longleftrightarrow>
      (\<exists>c c0 others d. chunk = Some c \<and> choices c = Some (c0 # others) \<and>
          delta c0 = Some d \<and> deltaContent d = Some t)" for t
    by (auto simp: tokenOf_def split: option.splits list.splits)
  have a: "relayChunks metrics queue (chunk # rest) =
        relayChunks (metrics\<lparr>messageCount := messageCount metrics + 1\<rparr>)
          (queue @ [buildSSEMessage CONTENT token
                      (Some (requestId metrics @ ''-'' @ showNat (messageCount metrics + 1)))])
          rest"
    if "tokenOf chunk = Some token"
    using that by (simp add: Let_def)
  have b: "relayChunks metrics queue (chunk # rest) = relayChunks metrics queue rest"
    if "tokenOf chunk = None"
    using that by simp
  have n: "tokenOf chunk = None"
    if "\<not> (\<exists>c c0 others d t. chunk = Some c \<and> choices c = Some (c0 # others) \<and>
          delta c0 = Some d \<and> deltaContent d = Some t)"
  proof (cases "tokenOf chunk")
    case None
    then show ?thesis .
  next
    case (Some t)
    with e [of t] that show ?thesis by blast
  qed
  show ?thesis
  proof (intro conjI impI)
    show "tokenOf chunk = Some token \<longleftrightarrow>
      (\<exists>c c0 others d. chunk = Some c \<and> choices c = Some (c0 # others) \<and>
          delta c0 = Some d \<and> deltaContent d = Some token)"
      by (rule e)
  next
    assume "\<exists>c c0 others d. chunk = Some c \<and> choices c = Some (c0 # others) \<and>
          delta c0 = Some d \<and> deltaContent d = Some token"
    then have "tokenOf chunk = Some token" by (simp only: e)
    then show "relayChunks metrics queue (chunk # rest) =
        relayChunks (metrics\<lparr>messageCount := messageCount metrics + 1\<rparr>)
          (queue @ [buildSSEMessage CONTENT token
                      (Some (requestId metrics @ ''-'' @ showNat (messageCount metrics + 1)))])
          rest"
      by (rule a)
  next
    assume "\<not> (\<exists>c c0 others d t. chunk = Some c \<and> choices c = Some (c0 # others) \<and>
          delta c0 = Some d \<and> deltaContent d = Some t)"
    then have "tokenOf chunk = None" by (rule n)
    then show "relayChunks metrics queue (chunk # rest) = relayChunks metrics queue rest"
      by (rule b)
  next
    show "relayChunks metrics queue cs =
     (metrics\<lparr>messageCount := messageCount metrics + length (List.map_filter tokenOf cs)\<rparr>,
      queue @ map (\<lambda>(k, token). buildSSEMessage CONTENT token
                     (Some (requestId metrics @ ''-'' @ showNat k)))
                (enumerate (Suc (messageCount metrics)) (List.map_filter tokenOf cs)))"
      by (rule relayChunks_unfold)
  qed
qed

text \<open>
  A stream of eight chunks: the first carries \<^verbatim>\<open>Hel\<close> and the last the empty string, which
  is a string; the six between carry none (a delta without content, no chunk, no choices,
  an empty list of choices, no delta, a string in the second choice only). Two records are
  written, numbered 1 and 2, and the count ends at 2.
\<close>

theorem relay_content_frames_witness:
  "tokenOf (tokenChunk ''Hel'') = Some ''Hel'' \<and>
   (\<exists>c c0 others d. tokenChunk ''Hel'' = Some c \<and> choices c = Some (c0 # others) \<and>
          delta c0 = Some d \<and> deltaContent d = Some ''Hel'') \<and>
   relayChunks \<lparr>requestId = ''req-1'', messageCount = 0, errorCount = 0\<rparr> [] [tokenChunk ''Hel''] =
     (\<lparr>requestId = ''req-1'', messageCount = 1, errorCount = 0\<rparr>,
      [buildSSEMessage CONTENT ''Hel'' (Some ''req-1-1'')]) \<and>
   \<not> (\<exists>c c0 others d t. secondChoiceOnly = Some c \<and> choices c = Some (c0 # others) \<and>
          delta c0 = Some d \<and> deltaContent d = Some t) \<and>
   relayChunks \<lparr>requestId = ''req-1'', messageCount = 0, errorCount = 0\<rparr> [] [secondChoiceOnly] =
     (\<lparr>requestId = ''req-1'', messageCount = 0, errorCount = 0\<rparr>, []) \<and>
   map tokenOf mixedChunks = [Some ''Hel'', None, None, None, None, None, None, Some []] \<and>
   relayChunks \<lparr>requestId = ''req-1'', messageCount = 0, errorCount = 0\<rparr> [] mixedChunks =
     (\<lparr>requestId = ''req-1'', messageCount = 2, errorCount = 0\<rparr>,
      [buildSSEMessage CONTENT ''Hel'' (Some ''req-1-1''),
       buildSSEMessage CONTENT [] (Some ''req-1-2'')])"
proof -
  let ?m = "\<lparr>requestId = ''req-1'', messageCount = 0, errorCount = 0\<rparr>"
  have s: "(\<exists>c c0 others d. tokenChunk ''Hel'' = Some c \<and> choices c = Some (c0 # others) \<and>
          delta c0 = Some d \<and> deltaContent d = Some ''Hel'')"
    by (simp add: tokenChunk_def)
  have k: "\<not> (\<exists>c c0 others d t. secondChoiceOnly = Some c \<and> choices c = Some (c0 # others) \<and>
          delta c0 = Some d \<and> deltaContent d = Some t)"
    by (auto simp: secondChoiceOnly_def)
  have m: "map tokenOf mixedChunks = [Some ''Hel'', None, None, None, None, None, None, Some []]"
    by code_simp
  have f: "List.map_filter tokenOf mixedChunks = [''Hel'', []]"
    by code_simp
  have n: "showNat (Suc 0) = ''1''" "showNat (Suc (Suc 0)) = ''2''"
    by code_simp+
  note t1 = relay_content_frames [of "tokenChunk ''Hel''" "''Hel''" ?m "[]" "[]" mixedChunks]
  note t2 = relay_content_frames [of secondChoiceOnly "[]" ?m "[]" "[]" "[]"]
  from t1 s have a: "tokenOf (tokenChunk ''Hel'') = Some ''Hel''" by blast
  from t1 s have "relayChunks ?m [] [tokenChunk ''Hel''] =
      relayChunks (?m\<lparr>messageCount := messageCount ?m + 1\<rparr>)
        ([] @ [buildSSEMessage CONTENT ''Hel''
                 (Some (requestId ?m @ ''-'' @ showNat (messageCount ?m + 1)))]) []"
    by blast
  then have b: "relayChunks ?m [] [tokenChunk ''Hel''] =
     (\<lparr>requestId = ''req-1'', messageCount = 1, errorCount = 0\<rparr>,
      [buildSSEMessage CONTENT ''Hel'' (Some ''req-1-1'')])"
    by (simp add: n)
  from t2 k have "relayChunks ?m [] [secondChoiceOnly] = relayChunks ?m [] []" by blast
  then have c: "relayChunks ?m [] [secondChoiceOnly] = (?m, [])" by simp
  from t1 have "relayChunks ?m [] mixedChunks =
     (?m\<lparr>messageCount := messageCount ?m + length (List.map_filter tokenOf mixedChunks)\<rparr>,
      [] @ map (\<lambda>(k, token). buildSSEMessage CONTENT token
                     (Some (requestId ?m @ ''-'' @ showNat k)))
                (enumerate (Suc (messageCount ?m)) (List.map_filter tokenOf mixedChunks)))"
    by blast
  then have d: "relayChunks ?m [] mixedChunks =
     (\<lparr>requestId = ''req-1'', messageCount = 2, errorCount = 0\<rparr>,
      [buildSSEMessage CONTENT ''Hel'' (Some ''req-1-1''),
       buildSSEMessage CONTENT [] (Some ''req-1-2'')])"
    by (simp add: f n)
  show ?thesis using a s b k c m d by blast
qed

text \<open>The messages behind the \<^verbatim>\<open>content\<close> records all have the type \<^verbatim>\<open>content\<close>.\<close>

lemma content_types:
  "map msgType (map (\<lambda>(k, token). sseMessage CONTENT token (Some (rid @ ''-'' @ showNat k))) kts) =
     replicate (length kts) CONTENT"
  by (induction kts) (auto simp: sseMessage_def)

text \<open>
  Claim C3. On a stream that was opened, the server writes exactly one \<^verbatim>\<open>metadata\<close> record
  first, then zero or more \<^verbatim>\<open>content\<close> records, then exactly one terminal record,
  \<^verbatim>\<open>done\<close> when the provider's stream ended and \<^verbatim>\<open>error\<close> when it threw; the terminal
  record is the last one written.
\<close>

theorem start_frame_order:
  "\<exists>contents terminal.
     fst (start metrics metadataText stream) =
       map wireRecord
         (sseMessage METADATA metadataText (Some (requestId metrics)) # contents @ [terminal]) \<and>
     map msgType contents = replicate (length contents) CONTENT \<and>
     msgType terminal = (case failure stream of None \<Rightarrow> DONE | Some e \<Rightarrow> ERROR)"
proof -
  let ?kts = "enumerate (Suc (messageCount metrics)) (List.map_filter tokenOf (chunks stream))"
  let ?contents =
    "map (\<lambda>(k, token). sseMessage CONTENT token (Some (requestId metrics @ ''-'' @ showNat k))) ?kts"
  have types: "map msgType ?contents = replicate (length ?contents) CONTENT"
    using content_types [of "requestId metrics" ?kts] by simp
  show ?thesis
  proof (cases "failure stream")
    case None
    have "fst (start metrics metadataText stream) =
        map wireRecord
          (sseMessage METADATA metadataText (Some (requestId metrics)) # ?contents @
           [sseMessage DONE [] (Some (requestId metrics @ ''-done''))])"
      using None
      by (simp add: start_def relayChunks_unfold buildSSEMessage_def split_def comp_def Let_def)
    moreover have "msgType (sseMessage DONE [] (Some (requestId metrics @ ''-done''))) = DONE"
      by (simp add: sseMessage_def)
    ultimately show ?thesis using types None by fastforce
  next
    case (Some e)
    have "fst (start metrics metadataText stream) =
        map wireRecord
          (sseMessage METADATA metadataText (Some (requestId metrics)) # ?contents @
           [sseMessage ERROR (errorMessageOf e) (Some (requestId metrics @ ''-error''))])"
      using Some
      by (simp add: start_def relayChunks_unfold buildSSEMessage_def split_def comp_def Let_def)
    moreover have
      "msgType (sseMessage ERROR (errorMessageOf e) (Some (requestId metrics @ ''-error''))) = ERROR"
      by (simp add: sseMessage_def)
    ultimately show ?thesis using types Some by fastforce
  qed
qed

text \<open>Every streamed response of the handler has the records of one run of \<^verbatim>\<open>start\<close> as body.\<close>

lemma POST_streams_start:
  assumes "fst (POST w env req) = StreamResponse records allow"
  shows "\<exists>metadataText stream.
           records = fst (start (createPerformanceMetrics w) metadataText stream)"
  using assms
  by (auto simp: POST_def tryBlock_def Let_def split: if_splits sum.splits prod.splits)
     (metis fst_conv)+


section \<open>The relay: admission and validation\<close>

text \<open>The handler answers with one of five status codes.\<close>

lemma status_POST_cases:
  "status (fst (POST w env req)) \<in> {403, 401, 400, 500, 200}"
  by (auto simp: POST_def tryBlock_def Let_def split: sum.splits prod.splits if_splits)

text \<open>
  Claim C5. A request whose \<^verbatim>\<open>Origin\<close> is present, not empty and not in the allow-list is
  answered with status 403, and nothing else is done for it (no call to the provider
  layer, no line logged). A request without \<^verbatim>\<open>Origin\<close>, or with an empty one, is not
  rejected by the origin check: it is never answered with 403.
\<close>

theorem origin_check:
  "(originHeader req = Some origin \<and> origin \<noteq> [] \<and> origin \<notin> set (allowedOrigins env) \<longrightarrow>
      status (fst (POST w env req)) = 403 \<and> snd (POST w env req) = noEffects) \<and>
   (originHeader req = None \<or> originHeader req = Some [] \<longrightarrow>
      \<not> originRejected env req \<and> status (fst (POST w env req)) \<noteq> 403)"
  by (auto simp: POST_def tryBlock_def Let_def originRejected_def
           split: sum.splits prod.splits if_splits)

text \<open>
  An origin outside the allow-list of a development deployment is turned away; the same
  request without origin is not.
\<close>

theorem origin_check_witness:
  "originHeader (demoRequest (Some ''https://evil.example'') hiBody) = Some ''https://evil.example'' \<and>
   ''https://evil.example'' \<noteq> [] \<and>
   ''https://evil.example'' \<notin> set (allowedOrigins demoEnv) \<and>
   status (fst (POST (demoWorld completeStream) demoEnv
                 (demoRequest (Some ''https://evil.example'') hiBody))) = 403 \<and>
   snd (POST (demoWorld completeStream) demoEnv
          (demoRequest (Some ''https://evil.example'') hiBody)) = noEffects \<and>
   originHeader (demoRequest None hiBody) = None \<and>
   status (fst (POST (demoWorld completeStream) demoEnv (demoRequest None hiBody))) \<noteq> 403"
proof -
  have h1:
    "originHeader (demoRequest (Some ''https://evil.example'') hiBody) = Some ''https://evil.example'' \<and>
     ''https://evil.example'' \<noteq> [] \<and>
     ''https://evil.example'' \<notin> set (allowedOrigins demoEnv)"
    by code_simp
  have h2: "originHeader (demoRequest None hiBody) = None"
    by code_simp
  from origin_check [of "demoRequest (Some ''https://evil.example'') hiBody"
                        "''https://evil.example''" demoEnv "demoWorld completeStream"]
       origin_check [of "demoRequest None hiBody" _ demoEnv "demoWorld completeStream"]
  show ?thesis using h1 h2 by blast
qed

text \<open>
  The entries of \<^verbatim>\<open>ALLOWED_ORIGINS\<close> are trimmed as \<^verbatim>\<open>String.prototype.trim\<close> does, a no-break
  space included: the origin named after one is in the allow-list, and a request from it
  is not answered with 403.
\<close>

lemma origin_trimmed:
  "allowedOrigins nbspEnv = [''https://intranet.bank.local'', ''https://a.example''] \<and>
   \<not> originRejected nbspEnv (demoRequest (Some ''https://a.example'') hiBody) \<and>
   status (fst (POST (demoWorld completeStream) nbspEnv
                 (demoRequest (Some ''https://a.example'') hiBody))) \<noteq> 403"
  by code_simp

text \<open>
  Claim C6, as stated, fails: the handler resolves the provider before it validates the
  messages, and a throw of the resolver is answered with status 500. Here an admitted
  request has an empty message list and names a provider that the resolver does not
  recognise; the answer is 500, not 400.
\<close>

theorem validation_preempted_counterexample:
  "\<not> originRejected demoEnv (demoRequest None bogusBody) \<and>
   \<not> identityMissing demoEnv (demoRequest None bogusBody) \<and>
   jsonBody (demoRequest None bogusBody) = Inr bogusBody \<and>
   bodyMessages bogusBody = Some [] \<and>
   status (fst (POST (demoWorld completeStream) demoEnv (demoRequest None bogusBody))) = 500"
  by code_simp

text \<open>
  Claim C6, amended. For an admitted request whose body parses and whose message list is
  absent or empty, or whose last message has empty content, no call to the provider layer
  is made; the answer has status 400 when the provider selector resolves, and status 500
  when its resolution, which comes first, throws.
\<close>

theorem validation_rejects:
  assumes "\<not> originRejected env req" and "\<not> identityMissing env req"
    and "jsonBody req = Inr body"
    and "msgs = (case bodyMessages body of None \<Rightarrow> [] | Some ms \<Rightarrow> ms)"
    and "msgs = [] \<or> content (last msgs) = []"
  shows "upstreamCalls (snd (POST w env req)) = [] \<and>
         (case resolveProvider w env (bodyProvider body) of
            Inr provider \<Rightarrow> status (fst (POST w env req)) = 400
          | Inl e \<Rightarrow> status (fst (POST w env req)) = 500)"
  using assms
  by (auto simp: POST_def tryBlock_def Let_def noEffects_def split: sum.splits option.splits)

text \<open>An empty message list with the default provider: status 400, no call.\<close>

theorem validation_rejects_witness:
  "\<not> originRejected demoEnv (demoRequest None emptyBody) \<and>
   \<not> identityMissing demoEnv (demoRequest None emptyBody) \<and>
   jsonBody (demoRequest None emptyBody) = Inr emptyBody \<and>
   resolveProvider (demoWorld completeStream) demoEnv (bodyProvider emptyBody) = Inr ''openai'' \<and>
   upstreamCalls (snd (POST (demoWorld completeStream) demoEnv (demoRequest None emptyBody))) = [] \<and>
   status (fst (POST (demoWorld completeStream) demoEnv (demoRequest None emptyBody))) = 400"
proof -
  have h: "\<not> originRejected demoEnv (demoRequest None emptyBody)"
    "\<not> identityMissing demoEnv (demoRequest None emptyBody)"
    "jsonBody (demoRequest None emptyBody) = Inr emptyBody"
    "[] = (case bodyMessages emptyBody of None \<Rightarrow> [] | Some ms \<Rightarrow> ms)"
    "([] :: VercelChatMessage list) = [] \<or> content (last ([] :: VercelChatMessage list)) = []"
    by code_simp+
  have r: "resolveProvider (demoWorld completeStream) demoEnv (bodyProvider emptyBody) = Inr ''openai''"
    by code_simp
  from validation_rejects [OF h, of "demoWorld completeStream"]
  show ?thesis using h r by simp
qed


section \<open>The client: what rendering and reading leave alone\<close>

lemma appendContent_frame:
  "dispatched (appendContent reqId d s) = dispatched s"
  "lastPayloadRef (appendContent reqId d s) = lastPayloadRef s"
  "retryCount (appendContent reqId d s) = retryCount s"
  "isLoading (appendContent reqId d s) = isLoading s"
  "error (appendContent reqId d s) = error s"
  "connectionStatus (appendContent reqId d s) = connectionStatus s"
  "updates (appendContent reqId d s) = updates s"
  by (auto simp: appendContent_def Let_def split: option.splits)

lemma runUpdate_frame:
  "dispatched (runUpdate u s) = dispatched s"
  "lastPayloadRef (runUpdate u s) = lastPayloadRef s"
  "retryCount (runUpdate u s) = retryCount s"
  "isLoading (runUpdate u s) = isLoading s"
  "error (runUpdate u s) = error s"
  "connectionStatus (runUpdate u s) = connectionStatus s"
  "updates (runUpdate u s) = updates s"
  by (cases u; simp add: appendContent_frame)+

lemma fold_runUpdate_frame:
  "dispatched (fold runUpdate us s) = dispatched s \<and>
   lastPayloadRef (fold runUpdate us s) = lastPayloadRef s \<and>
   retryCount (fold runUpdate us s) = retryCount s \<and>
   isLoading (fold runUpdate us s) = isLoading s \<and>
   error (fold runUpdate us s) = error s \<and>
   connectionStatus (fold runUpdate us s) = connectionStatus s \<and>
   updates (fold runUpdate us s) = updates s"
  by (induction us arbitrary: s) (simp_all add: runUpdate_frame)

lemma render_frame:
  "dispatched (render s) = dispatched s"
  "lastPayloadRef (render s) = lastPayloadRef s"
  "retryCount (render s) = retryCount s"
  "isLoading (render s) = isLoading s"
  "error (render s) = error s"
  "connectionStatus (render s) = connectionStatus s"
  "updates (render s) = []"
  by (simp_all add: render_def fold_runUpdate_frame)

lemma render_rendered: "updates s = [] \<Longrightarrow> render s = s"
  by (simp add: render_def)

lemma applyMessage_frame:
  assumes "applyMessage reqId m s = (flow, s')"
  shows "dispatched s' = dispatched s" "lastPayloadRef s' = lastPayloadRef s"
    "retryCount s' = retryCount s" "isLoading s' = isLoading s"
  using assms
  by (auto simp: applyMessage_def setMessages_def split: SSEEventType.splits)

lemma handleLine_frame:
  assumes "handleLine parse reqId line s = (flow, s')"
  shows "dispatched s' = dispatched s" "lastPayloadRef s' = lastPayloadRef s"
    "retryCount s' = retryCount s" "isLoading s' = isLoading s"
  using assms
  by (auto simp: handleLine_def Let_def split: if_splits option.splits dest: applyMessage_frame)

lemma handleLines_frame:
  assumes "handleLines parse reqId lines s = (flow, s')"
  shows "dispatched s' = dispatched s \<and> lastPayloadRef s' = lastPayloadRef s \<and>
    retryCount s' = retryCount s \<and> isLoading s' = isLoading s"
  using assms
proof (induction lines arbitrary: s)
  case Nil
  then show ?case by simp
next
  case (Cons line rest)
  obtain f1 s1 where h: "handleLine parse reqId line s = (f1, s1)"
    by (cases "handleLine parse reqId line s")
  note fr = handleLine_frame [OF h]
  show ?case
  proof (cases f1)
    case Continue
    with Cons.prems h have "handleLines parse reqId rest s1 = (flow, s')" by simp
    from Cons.IH [OF this] fr show ?thesis by simp
  next
    case Return
    with Cons.prems h have "s' = s1" by simp
    with fr show ?thesis by simp
  qed
qed

lemma readLoop_frame:
  assumes "readLoop parse reqId rs atEnd ending s = (c, s')"
  shows "dispatched s' = dispatched s \<and> lastPayloadRef s' = lastPayloadRef s \<and>
    retryCount s' = retryCount s \<and> isLoading s' = isLoading s"
  using assms
proof (induction rs arbitrary: s)
  case Nil
  then show ?case by (auto simp: render_frame Let_def split: option.splits if_splits)
next
  case (Cons r rest)
  obtain rendered chunk where r: "r = (rendered, chunk)" by (cases r)
  define s0 where "s0 = (if rendered then render s else s)"
  have f0: "dispatched s0 = dispatched s \<and> lastPayloadRef s0 = lastPayloadRef s \<and>
    retryCount s0 = retryCount s \<and> isLoading s0 = isLoading s"
    by (simp add: s0_def render_frame)
  obtain f1 s1 where h: "handleLines parse reqId (split LF chunk) s0 = (f1, s1)"
    by (cases "handleLines parse reqId (split LF chunk) s0")
  note fr = handleLines_frame [OF h]
  show ?case
  proof (cases f1)
    case Continue
    with Cons.prems h r have "readLoop parse reqId rest atEnd ending s1 = (c, s')"
      by (simp add: s0_def)
    from Cons.IH [OF this] fr f0 show ?thesis by simp
  next
    case Return
    with Cons.prems h r have "s' = s1" by (simp add: s0_def)
    with fr f0 show ?thesis by simp
  qed
qed

text \<open>The loop throws only what a read rejected with.\<close>

lemma readLoop_threw:
  "readLoop parse reqId rs atEnd ending s = (Threw e, s') \<Longrightarrow> ending = Some e"
  by (induction rs arbitrary: s) (auto simp: Let_def split: option.splits prod.splits Flow.splits)

lemma handleStreamingResponse_frame:
  assumes "handleStreamingResponse parse reqId body s = (c, s')"
  shows "dispatched s' = dispatched s" "lastPayloadRef s' = lastPayloadRef s"
    "retryCount s' = retryCount s" "isLoading s' = isLoading s"
  using assms
  by (auto simp: handleStreamingResponse_def Let_def setMessages_def
           split: option.splits prod.splits dest!: readLoop_frame)

text \<open>
  With a body, the reader leaves the connection status at \<^verbatim>\<open>disconnected\<close>: its
  \<^verbatim>\<open>finally\<close> block writes the status last, also after an \<^verbatim>\<open>error\<close> record.
\<close>

lemma handleStreamingResponse_status:
  assumes "handleStreamingResponse parse reqId (Some b) s = (c, s')"
  shows "connectionStatus s' = DISCONNECTED"
  using assms
  by (auto simp: handleStreamingResponse_def Let_def split: prod.splits)

lemma settle_frame:
  "dispatched (settle parse out reqId s) = dispatched s"
  "lastPayloadRef (settle parse out reqId s) = lastPayloadRef s"
  "retryCount (settle parse out reqId s) = retryCount s"
  "isLoading (settle parse out reqId s) = False"
  by (auto simp: settle_def Let_def catchError_def setMessages_def
           split: FetchOutcome.splits prod.splits Completion.splits
           dest: handleStreamingResponse_frame)

text \<open>
  When no read rejects, a streamed response ends with the status \<^verbatim>\<open>disconnected\<close>,
  whatever it carried.
\<close>

lemma settle_stream_status:
  assumes "readFailure b = None"
  shows "connectionStatus (render (settle parse (Ok (Some b)) reqId s)) = DISCONNECTED"
proof -
  obtain c s1 where h: "handleStreamingResponse parse reqId (Some b) s = (c, s1)"
    by (cases "handleStreamingResponse parse reqId (Some b) s")
  have "c = Completed"
  proof (cases c)
    case Completed
    then show ?thesis .
  next
    case (Threw e)
    with h assms show ?thesis
      by (auto simp: handleStreamingResponse_def Let_def split: prod.splits dest: readLoop_threw)
  qed
  with h handleStreamingResponse_status [OF h] show ?thesis
    by (simp add: settle_def render_frame)
qed


section \<open>The client: roles and metadata\<close>

lemma shape_appendContent:
  "map shape (messages (appendContent reqId d s)) = map shape (messages s)"
proof -
  have "map shape ((messages s)[i := (messages s ! i)\<lparr>content := x\<rparr>]) = map shape (messages s)"
    if "i < length (messages s)" for i x
    using that by (simp add: map_update shape_def list_update_same_conv)
  then show ?thesis
    by (auto simp: appendContent_def Let_def split: option.splits)
qed

lemma shape_flagError:
  "map shape (flagError e prev) = shapeAfter (MarkFailed e) (map shape prev)"
  by (cases prev rule: rev_cases) (simp_all add: flagError_def Let_def shape_def)

lemma shape_runUpdate:
  "map shape (messages (runUpdate u s)) = shapeAfter u (map shape (messages s))"
  by (cases u) (simp_all add: shape_appendContent shape_flagError shape_def del: shapeAfter.simps(4))

lemma shape_fold:
  "map shape (messages (fold runUpdate us s)) = fold shapeAfter us (map shape (messages s))"
  by (induction us arbitrary: s) (simp_all add: shape_runUpdate del: shapeAfter.simps)

lemma shape_render: "map shape (messages (render s)) = finalShape s"
  by (simp add: render_def finalShape_def shape_fold)

lemma finalShape_setMessages: "finalShape (setMessages u s) = shapeAfter u (finalShape s)"
  by (simp add: finalShape_def setMessages_def)

lemma finalShape_render: "finalShape (render s) = finalShape s"
  using shape_render [of s] by (simp add: finalShape_def render_frame)

lemma finalShape_applyMessage:
  "applyMessage reqId m s = (flow, s') \<Longrightarrow> finalShape s' = finalShape s"
  by (auto simp: applyMessage_def finalShape_setMessages split: SSEEventType.splits)
     (simp_all add: finalShape_def)

lemma finalShape_handleLine:
  "handleLine parse reqId line s = (flow, s') \<Longrightarrow> finalShape s' = finalShape s"
  by (auto simp: handleLine_def Let_def split: if_splits option.splits
           dest: finalShape_applyMessage)

lemma finalShape_handleLines:
  "handleLines parse reqId lines s = (flow, s') \<Longrightarrow> finalShape s' = finalShape s"
proof (induction lines arbitrary: s)
  case Nil
  then show ?case by simp
next
  case (Cons line rest)
  obtain f1 s1 where h: "handleLine parse reqId line s = (f1, s1)"
    by (cases "handleLine parse reqId line s")
  note fr = finalShape_handleLine [OF h]
  show ?case
  proof (cases f1)
    case Continue
    with Cons.prems h have "handleLines parse reqId rest s1 = (flow, s')" by simp
    from Cons.IH [OF this] fr show ?thesis by simp
  next
    case Return
    with Cons.prems h have "s' = s1" by simp
    with fr show ?thesis by simp
  qed
qed

lemma finalShape_readLoop:
  "readLoop parse reqId rs atEnd ending s = (c, s') \<Longrightarrow> finalShape s' = finalShape s"
proof (induction rs arbitrary: s)
  case Nil
  then show ?case by (auto simp: finalShape_render Let_def split: option.splits if_splits)
next
  case (Cons r rest)
  obtain rendered chunk where r: "r = (rendered, chunk)" by (cases r)
  define s0 where "s0 = (if rendered then render s else s)"
  have f0: "finalShape s0 = finalShape s" by (simp add: s0_def finalShape_render)
  obtain f1 s1 where h: "handleLines parse reqId (split LF chunk) s0 = (f1, s1)"
    by (cases "handleLines parse reqId (split LF chunk) s0")
  note fr = finalShape_handleLines [OF h]
  show ?case
  proof (cases f1)
    case Continue
    with Cons.prems h r have "readLoop parse reqId rest atEnd ending s1 = (c, s')"
      by (simp add: s0_def)
    from Cons.IH [OF this] fr f0 show ?thesis by simp
  next
    case Return
    with Cons.prems h r have "s' = s1" by (simp add: s0_def)
    with fr f0 show ?thesis by simp
  qed
qed

text \<open>
  Reading a stream appends one message to the list, the assistant's and without metadata,
  and changes no role and no metadata: whatever the stream carries, an \<^verbatim>\<open>error\<close> record
  too, no message is flagged.
\<close>

lemma finalShape_handleStreamingResponse:
  assumes "handleStreamingResponse parse reqId (Some b) s = (c, s')"
  shows "finalShape s' = finalShape s @ [(Assistant, None)]"
proof -
  let ?s1 = "(setMessages (AddStreaming reqId) s)\<lparr>connectionStatus := CONNECTED\<rparr>"
  obtain s2 where r: "readLoop parse reqId (reads b) (renderedAtEnd b) (readFailure b) ?s1 = (c, s2)"
    and s': "s' = s2\<lparr>streamingMessageRef := None, connectionStatus := DISCONNECTED\<rparr>"
    using assms by (auto simp: handleStreamingResponse_def Let_def split: prod.splits)
  have "finalShape ?s1 = finalShape s @ [(Assistant, None)]"
    by (simp add: finalShape_def setMessages_def)
  with finalShape_readLoop [OF r] s' show ?thesis by (simp add: finalShape_def)
qed

lemma settle_stream_shape:
  assumes "readFailure b = None"
  shows "map shape (messages (render (settle parse (Ok (Some b)) reqId s))) =
           finalShape s @ [(Assistant, None)]"
proof -
  obtain c s1 where h: "handleStreamingResponse parse reqId (Some b) s = (c, s1)"
    by (cases "handleStreamingResponse parse reqId (Some b) s")
  have "c = Completed"
  proof (cases c)
    case Completed
    then show ?thesis .
  next
    case (Threw e)
    with h assms show ?thesis
      by (auto simp: handleStreamingResponse_def Let_def split: prod.splits dest: readLoop_threw)
  qed
  with h have "settle parse (Ok (Some b)) reqId s = s1\<lparr>isLoading := False\<rparr>"
    by (simp add: settle_def)
  then have "finalShape (settle parse (Ok (Some b)) reqId s) = finalShape s1"
    by (simp add: finalShape_def)
  with finalShape_handleStreamingResponse [OF h] show ?thesis by (simp add: shape_render)
qed

text \<open>
  Once \<^verbatim>\<open>fetch\<close> has settled, however it has, the list that React renders is empty or ends
  with a message of the assistant.
\<close>

lemma shapeAfter_MarkFailed_last:
  "shapeAfter (MarkFailed e) sh = [] \<or> fst (last (shapeAfter (MarkFailed e) sh)) = Assistant"
  by simp

lemma settle_last_assistant:
  "finalShape (settle parse out reqId s) = [] \<or>
   fst (last (finalShape (settle parse out reqId s))) = Assistant"
proof (cases out)
  case (FetchRejects e)
  then show ?thesis
    by (simp add: settle_def catchError_def finalShape_def setMessages_def shape_def)
next
  case (NotOk code body)
  have "finalShape (settle parse out reqId s) =
          shapeAfter (MarkFailed (errorMessageFor code body)) (finalShape s)"
    using NotOk by (simp add: settle_def Let_def finalShape_def setMessages_def)
  with shapeAfter_MarkFailed_last show ?thesis by metis
next
  case (Ok body)
  show ?thesis
  proof (cases body)
    case None
    with Ok show ?thesis
      by (simp add: settle_def handleStreamingResponse_def catchError_def finalShape_def
            setMessages_def shape_def)
  next
    case (Some b)
    obtain c s1 where h: "handleStreamingResponse parse reqId (Some b) s = (c, s1)"
      by (cases "handleStreamingResponse parse reqId (Some b) s")
    note sh = finalShape_handleStreamingResponse [OF h]
    show ?thesis
    proof (cases c)
      case Completed
      with h Ok Some have "finalShape (settle parse out reqId s) = finalShape s1"
        by (simp add: settle_def finalShape_def)
      with sh show ?thesis by simp
    next
      case (Threw e)
      with h Ok Some have "finalShape (settle parse out reqId s) =
          finalShape s1 @ [(Assistant, None)]"
        by (simp add: settle_def catchError_def finalShape_def setMessages_def shape_def)
      then show ?thesis by simp
    qed
  qed
qed

lemma last_role_shape:
  "(messages s = [] \<or> role (last (messages s)) = Assistant) \<longleftrightarrow>
   (map shape (messages s) = [] \<or> fst (last (map shape (messages s))) = Assistant)"
  by (cases "messages s" rule: rev_cases) (simp_all add: shape_def)

text \<open>
  \<^verbatim>\<open>retry\<close> dispatches nothing when the list that it has captured is empty or ends with a
  message of the assistant.
\<close>

lemma retry_dispatched:
  assumes "capturedMessages c = [] \<or> role (last (capturedMessages c)) = Assistant"
  shows "dispatched (retry options parse net c s) = dispatched s"
  using assms by (auto simp: retry_def Let_def)

text \<open>
  In a session, the list that React has rendered after a call is empty or ends with a
  message of the assistant, and nothing is queued.
\<close>

lemma sendMessage_last_assistant:
  assumes "finalShape s = [] \<or> fst (last (finalShape s)) = Assistant"
  shows "finalShape (sendMessage options parse net c text payload s) = [] \<or>
         fst (last (finalShape (sendMessage options parse net c text payload s))) = Assistant"
proof (cases "guardRejects c text")
  case True
  then have "sendMessage options parse net c text payload s = s\<lparr>lastPayloadRef := payload\<rparr>"
    by (simp add: sendMessage_def sendMessageCore_def)
  then have "finalShape (sendMessage options parse net c text payload s) = finalShape s"
    by (simp add: finalShape_def)
  with assms show ?thesis by simp
next
  case False
  then show ?thesis
    by (simp add: sendMessage_def sendMessageCore_def settle_last_assistant)
qed

lemma retry_last_assistant:
  assumes "finalShape s = [] \<or> fst (last (finalShape s)) = Assistant"
  shows "finalShape (retry options parse net c s) = [] \<or>
         fst (last (finalShape (retry options parse net c s))) = Assistant"
proof -
  have a: "finalShape (s\<lparr>error := e\<rparr>) = finalShape s" for e by (simp add: finalShape_def)
  have b: "finalShape (s\<lparr>retryCount := n, error := e\<rparr>) = finalShape s" for n e
    by (simp add: finalShape_def)
  show ?thesis
    using assms
    by (auto simp: retry_def Let_def a b sendMessageCore_def settle_last_assistant
             simp del: One_nat_def)
qed

lemma perform_last_assistant:
  assumes "finalShape s = [] \<or> fst (last (finalShape s)) = Assistant"
  shows "finalShape (perform options parse call s) = [] \<or>
         fst (last (finalShape (perform options parse call s))) = Assistant"
proof (cases call)
  case (SendMessage net msg payload)
  then show ?thesis
    using sendMessage_last_assistant [OF assms] by (simp add: finalShape_render)
next
  case (Retry net)
  then show ?thesis
    using retry_last_assistant [OF assms] by (simp add: finalShape_render)
next
  case ClearMessages
  have "finalShape (clearMessages s) = []"
    by (simp add: clearMessages_def finalShape_def setMessages_def)
  with ClearMessages show ?thesis by (simp add: finalShape_render)
qed

lemma perform_rendered: "updates (perform options parse call s) = []"
  by (cases call) (simp_all add: render_frame)

lemma fold_perform_last_assistant:
  assumes "finalShape s = [] \<or> fst (last (finalShape s)) = Assistant"
  shows "finalShape (fold (perform options parse) calls s) = [] \<or>
         fst (last (finalShape (fold (perform options parse) calls s))) = Assistant"
  using assms
proof (induction calls arbitrary: s)
  case Nil
  then show ?case by simp
next
  case (Cons call calls)
  from perform_last_assistant [OF Cons.prems]
  have "finalShape (perform options parse call s) = [] \<or>
        fst (last (finalShape (perform options parse call s))) = Assistant" .
  from Cons.IH [OF this] show ?case by simp
qed

lemma fold_perform_rendered:
  "updates s = [] \<Longrightarrow> updates (fold (perform options parse) calls s) = []"
  by (induction calls arbitrary: s) (simp_all add: perform_rendered)

lemma session_last_assistant:
  "updates (session options parse calls) = [] \<and>
   (messages (session options parse calls) = [] \<or>
    role (last (messages (session options parse calls))) = Assistant)"
proof -
  let ?s = "session options parse calls"
  have u: "updates ?s = []"
    unfolding session_def by (rule fold_perform_rendered) (simp add: initialState_def)
  have "finalShape initialState = []" by (simp add: finalShape_def initialState_def)
  then have "finalShape ?s = [] \<or> fst (last (finalShape ?s)) = Assistant"
    unfolding session_def using fold_perform_last_assistant by blast
  moreover have "finalShape ?s = map shape (messages ?s)" using u by (simp add: finalShape_def)
  ultimately show ?thesis using u last_role_shape [of ?s] by simp
qed

text \<open>
  So in a session, at whatever point \<^verbatim>\<open>retry\<close> is called, and whatever the network would
  answer, it dispatches no request.
\<close>

lemma session_retry_dispatches_nothing:
  "dispatched (perform options parse (Retry net) (session options parse calls)) =
   dispatched (session options parse calls)"
proof -
  let ?s = "session options parse calls"
  from session_last_assistant [of options parse calls]
  have u: "updates ?s = []" and l: "messages ?s = [] \<or> role (last (messages ?s)) = Assistant"
    by simp_all
  have "capturedMessages (closureOf ?s) = messages ?s"
    using u by (simp add: closureOf_def render_rendered)
  with l have "capturedMessages (closureOf ?s) = [] \<or>
               role (last (capturedMessages (closureOf ?s))) = Assistant" by simp
  from retry_dispatched [OF this] show ?thesis by (simp add: render_frame)
qed


section \<open>The wire format: what is written is what is read\<close>

text \<open>The reader of string literals undoes the escapes of \<^verbatim>\<open>JSON.stringify\<close>.\<close>

lemma readString_DQ: "readString (DQ # cs) = Some ([], cs)"
  by simp

lemma readString_escape:
  "e \<noteq> CHR ''u'' \<Longrightarrow> unescape e = Some x \<Longrightarrow> readString (BSL # e # r) = consChar x (readString r)"
  by (simp add: DQ_def BSL_def)

lemma readString_unicode:
  "unicodeEscape a b c d = Some x \<Longrightarrow>
   readString (BSL # CHR ''u'' # a # b # c # d # r) = consChar x (readString r)"
  by (simp add: DQ_def BSL_def)

lemma readString_plain:
  "c \<noteq> DQ \<Longrightarrow> c \<noteq> BSL \<Longrightarrow> \<not> (of_char c :: nat) < 32 \<Longrightarrow>
   readString (c # cs) = consChar c (readString cs)"
  by simp

lemma hexValue_hexDigit: "d < 16 \<Longrightarrow> hexValue (hexDigit d) = Some d"
  by (auto simp: hexValue_def hexDigit_def Let_def)

lemma unicodeEscape_control:
  assumes "(of_char c :: nat) < 32"
  shows "unicodeEscape (CHR ''0'') (CHR ''0'') (hexDigit (of_char c div 16)) (hexDigit (of_char c mod 16)) = Some c"
proof -
  have z: "hexValue (CHR ''0'') = Some 0" by (simp add: hexValue_def)
  have a: "hexValue (hexDigit (of_char c div 16)) = Some (of_char c div 16)"
    using assms by (intro hexValue_hexDigit) simp
  have b: "hexValue (hexDigit (of_char c mod 16)) = Some (of_char c mod 16)"
    by (intro hexValue_hexDigit) simp
  show ?thesis using assms
    by (simp add: unicodeEscape_def z a b Let_def)
qed

lemma readString_quoteChar:
  "readString (quoteChar c @ r) = consChar c (readString r)"
proof -
  consider "c = DQ" | "c = BSL" | "c = CHR 0x08" | "c = CHR 0x0C" | "c = CHR 0x0A" | "c = CHR 0x0D"
    | "c = CHR 0x09"
    | "c \<noteq> DQ" "c \<noteq> BSL" "c \<noteq> CHR 0x08" "c \<noteq> CHR 0x0C" "c \<noteq> CHR 0x0A" "c \<noteq> CHR 0x0D" "c \<noteq> CHR 0x09" "(of_char c :: nat) < 32"
    | "c \<noteq> DQ" "c \<noteq> BSL" "\<not> (of_char c :: nat) < 32"
    by blast
  then show ?thesis
  proof cases
    case 8
    then have "quoteChar c = [BSL, CHR ''u'', CHR ''0'', CHR ''0'',
              hexDigit (of_char c div 16), hexDigit (of_char c mod 16)]"
      by (simp add: quoteChar_def)
    then show ?thesis
      using readString_unicode [OF unicodeEscape_control [OF 8(8)]] by simp
  next
    case 9
    then have "quoteChar c = [c]"
      by (auto simp: quoteChar_def DQ_def BSL_def)
    then show ?thesis using 9 by (simp add: readString_plain del: readString.simps)
  qed (simp_all add: quoteChar_def unescape_def DQ_def BSL_def)
qed

lemma readString_quoted:
  "readString (concat (map quoteChar s) @ DQ # rest) = Some (s, rest)"
proof (induction s)
  case Nil
  show ?case by simp
next
  case (Cons c s)
  have "readString (concat (map quoteChar (c # s)) @ DQ # rest) =
        readString (quoteChar c @ (concat (map quoteChar s) @ DQ # rest))"
    by simp
  also have "\<dots> = consChar c (readString (concat (map quoteChar s) @ DQ # rest))"
    by (rule readString_quoteChar)
  finally show ?case using Cons.IH by (simp add: consChar_def)
qed

lemma expect_prefix: "expect p (p @ r) = Some r"
  by (simp add: expect_def startsWith_def)

lemma readMember_stringify:
  "readMember key (stringifyMember (key, v) @ rest) = Some (v, rest)"
proof -
  have "stringifyMember (key, v) @ rest =
        (quoteJSONString key @ '':'' @ [DQ]) @ (concat (map quoteChar v) @ DQ # rest)"
    by (simp add: stringifyMember_def quoteJSONString_def)
  then show ?thesis
    by (simp only: readMember_def expect_prefix option.case readString_quoted)
qed

lemma eventOfName_eventName: "eventOfName (eventName ty) = Some ty"
  by (cases ty) (simp_all add: eventOfName_def)

text \<open>The reader gives back every message that the relay serialises.\<close>

lemma parse_stringify:
  "parseSSEMessage (stringifySSEMessage m) = Some m"
proof -
  let ?t = "(''type'', eventName (msgType m))"
  let ?d = "(''data'', msgData m)"
  show ?thesis
  proof (cases "msgId m")
    case None
    have s: "stringifySSEMessage m =
        ''{'' @ (stringifyMember ?t @ ('','' @ (stringifyMember ?d @ ''}'')))"
      using None by (simp add: stringifySSEMessage_def stringifyObject_def)
    have "readId (msgType m) (msgData m) ''}'' = Some m"
      using None by (simp add: readId_def)
    then have "readData (msgType m) ('','' @ (stringifyMember ?d @ ''}'')) = Some m"
      by (simp only: readData_def expect_prefix option.case readMember_stringify prod.case)
    then show ?thesis
      by (simp only: s parseSSEMessage_def expect_prefix option.case readMember_stringify prod.case
            eventOfName_eventName)
  next
    case (Some i)
    let ?i = "(''id'', i)"
    have s: "stringifySSEMessage m =
        ''{'' @ (stringifyMember ?t @ ('','' @ (stringifyMember ?d @ ('','' @ (stringifyMember ?i @ ''}'')))))"
      using Some by (simp add: stringifySSEMessage_def stringifyObject_def)
    have ne: "'','' @ (stringifyMember ?i @ ''}'') \<noteq> ''}''" by simp
    have "readId (msgType m) (msgData m) ('','' @ (stringifyMember ?i @ ''}'')) = Some m"
      using Some
      by (simp only: readId_def ne if_False expect_prefix option.case readMember_stringify prod.case)
         simp
    then have "readData (msgType m) ('','' @ (stringifyMember ?d @ ('','' @ (stringifyMember ?i @ ''}'')))) = Some m"
      by (simp only: readData_def expect_prefix option.case readMember_stringify prod.case)
    then show ?thesis
      by (simp only: s parseSSEMessage_def expect_prefix option.case readMember_stringify prod.case
            eventOfName_eventName)
  qed
qed

text \<open>Hence two messages with the same record on the wire are the same message.\<close>

lemma wireRecord_inj:
  assumes "wireRecord m = wireRecord m'"
  shows "m = m'"
proof -
  from assms have "stringifySSEMessage m = stringifySSEMessage m'"
    by (simp add: wireRecord_def)
  then have "parseSSEMessage (stringifySSEMessage m) = parseSSEMessage (stringifySSEMessage m')"
    by simp
  then show ?thesis by (simp add: parse_stringify)
qed

text \<open>A record holds no line feed but the two that end it, so it splits into its line.\<close>

lemma hexDigit_ge: "d < 16 \<Longrightarrow> (of_char (hexDigit d) :: nat) \<ge> 48"
  by (simp add: hexDigit_def)

lemma hexDigit_not_LF: "d < 16 \<Longrightarrow> hexDigit d \<noteq> LF"
proof
  assume "d < 16" and "hexDigit d = LF"
  then have "(of_char LF :: nat) \<ge> 48" using hexDigit_ge by metis
  then show False by (simp add: LF_def)
qed

lemma LF_quoteChar: "LF \<notin> set (quoteChar c)"
proof -
  have a: "hexDigit (of_char c mod 16) \<noteq> LF" by (rule hexDigit_not_LF) simp
  have b: "(of_char c :: nat) < 32 \<Longrightarrow> hexDigit (of_char c div 16) \<noteq> LF"
    by (rule hexDigit_not_LF) simp
  show ?thesis using a b
    by (auto simp: quoteChar_def LF_def DQ_def BSL_def)
qed

lemma LF_quoteJSONString: "LF \<notin> set (quoteJSONString s)"
  by (auto simp: quoteJSONString_def LF_quoteChar) (simp add: LF_def DQ_def)+

lemma LF_stringifyMember: "LF \<notin> set (stringifyMember kv)"
  by (auto simp: stringifyMember_def LF_quoteJSONString) (simp add: LF_def)

lemma LF_join: "(\<forall>x \<in> set xs. LF \<notin> set x) \<Longrightarrow> LF \<notin> set (join '','' xs)"
  by (induction "'',''" xs rule: join.induct) (auto simp: LF_def)

lemma LF_stringifyObject: "LF \<notin> set (stringifyObject kvs)"
proof -
  have j: "LF \<notin> set (join '','' (map stringifyMember kvs))"
    by (rule LF_join) (simp add: LF_stringifyMember)
  have "LF \<noteq> CHR ''{''" "LF \<noteq> CHR ''}''" by (simp_all add: LF_def)
  with j show ?thesis by (simp add: stringifyObject_def)
qed

lemma LF_stringify: "LF \<notin> set (stringifySSEMessage m)"
  unfolding stringifySSEMessage_def by (rule LF_stringifyObject)

lemma split_append:
  "sep \<notin> set xs \<Longrightarrow> split sep (xs @ sep # ys) = xs # split sep ys"
  by (induction xs) auto

lemma split_wireRecord:
  "split LF (wireRecord m @ rest) = (''data: '' @ stringifySSEMessage m) # [] # split LF rest"
proof -
  have n: "LF \<notin> set (''data: '' @ stringifySSEMessage m)"
    using LF_stringify [of m] by (simp add: LF_def)
  have "wireRecord m @ rest = (''data: '' @ stringifySSEMessage m) @ LF # ([] @ LF # rest)"
    by (simp add: wireRecord_def)
  then have "split LF (wireRecord m @ rest) =
      (''data: '' @ stringifySSEMessage m) # split LF ([] @ LF # rest)"
    using split_append [OF n] by simp
  also have "split LF ([] @ LF # rest) = [] # split LF rest"
    by (rule split_append) simp
  finally show ?thesis .
qed

lemma trim_nonempty: "s \<noteq> [] \<Longrightarrow> \<not> isWhiteSpace (hd s) \<Longrightarrow> trim s \<noteq> []"
  by (cases s) (auto simp: trim_def)

lemma stringify_shape: "\<exists>r. stringifySSEMessage m = CHR ''{'' # r"
  by (simp add: stringifySSEMessage_def stringifyObject_def)

lemma handleLine_record:
  "handleLine parseSSEMessage reqId (''data: '' @ stringifySSEMessage m) s = applyMessage reqId m s"
proof -
  obtain r where r: "stringifySSEMessage m = CHR ''{'' # r" using stringify_shape by blast
  have t: "trim (stringifySSEMessage m) \<noteq> []"
    by (rule trim_nonempty) (simp_all add: r isWhiteSpace_def)
  show ?thesis
    using t by (simp add: handleLine_def startsWith_def Let_def parse_stringify)
qed


text \<open>
  A read that holds one record of the relay: the reader applies its message. When every
  record arrives in a read of its own and React renders during every wait, the content of
  the streaming message grows by the text received.
\<close>

lemma handleLine_empty: "handleLine parse reqId [] s = (Continue, s)"
  by (simp add: handleLine_def startsWith_def)

lemma split_LF_empty: "split LF [] = [[]]"
  by simp

lemma handleLines_record:
  "handleLines parseSSEMessage reqId (split LF (wireRecord m)) s = applyMessage reqId m s"
proof -
  define line where "line = ''data: '' @ stringifySSEMessage m"
  have sp: "split LF (wireRecord m) = [line, [], []]"
    using split_wireRecord [of m "[]"] split_LF_empty by (simp add: line_def del: split.simps)
  have hl: "handleLine parseSSEMessage reqId line s = applyMessage reqId m s"
    unfolding line_def by (rule handleLine_record)
  show ?thesis
    unfolding sp
    by (cases "applyMessage reqId m s") (auto simp: hl handleLine_empty split: Flow.splits)
qed

lemma readLoop_own_reads:
  "readLoop parseSSEMessage reqId (map (\<lambda>m. (True, wireRecord m)) ms) atEnd ending s =
     (case applyMessages reqId ms s of
        (Return, s') \<Rightarrow> (Completed, s')
      | (Continue, s') \<Rightarrow> readLoop parseSSEMessage reqId [] atEnd ending s')"
proof (induction ms arbitrary: s)
  case Nil
  show ?case by simp
next
  case (Cons m ms)
  show ?case
    by (cases "applyMessage reqId m (render s)")
       (auto simp: handleLines_record Cons.IH simp del: split.simps readLoop.simps(1)
             split: Flow.splits)
qed

lemma receivedText_simps:
  "receivedText [] = []"
  "msgType m = METADATA \<Longrightarrow> receivedText (m # ms) = receivedText ms"
  "msgType m = CONTENT \<Longrightarrow> receivedText (m # ms) = msgData m @ receivedText ms"
  "msgType m = DONE \<Longrightarrow> receivedText (m # ms) = []"
  "msgType m = ERROR \<Longrightarrow> receivedText (m # ms) = []"
  by (simp_all add: receivedText_def)

lemma render_setMessages: "render (setMessages u s) = runUpdate u (render s)"
  by (simp add: render_def setMessages_def)

lemma render_render: "render (render s) = render s"
  by (simp add: render_rendered render_frame)

text \<open>
  Once React has rendered, the list is \<open>before\<close> followed by the assistant's message, and
  the ref points at that message: the messages applied one after the other append the text
  received to its content.
\<close>

lemma applyMessages_content:
  assumes "messages (render s) = before @ [\<lparr>role = Assistant, content = acc, metadata = None\<rparr>]"
    and "streamingMessageRef (render s) = Some (length before, reqId)"
    and "applyMessages reqId ms s = (flow, s')"
  shows "messages (render s') =
           before @ [\<lparr>role = Assistant, content = acc @ receivedText ms, metadata = None\<rparr>] \<and>
         (flow = Continue \<longrightarrow> streamingMessageRef (render s') = Some (length before, reqId))"
  using assms
proof (induction ms arbitrary: s acc)
  case Nil
  then show ?case by (simp add: receivedText_simps)
next
  case (Cons m ms)
  show ?case
  proof (cases "msgType m")
    case CONTENT
    let ?s1 = "setMessages (AddFragment reqId (msgData m)) (render s)"
    have r1: "render ?s1 = appendContent reqId (msgData m) (render s)"
      by (simp add: render_setMessages render_render)
    have m1: "messages (render ?s1) =
        before @ [\<lparr>role = Assistant, content = acc @ msgData m, metadata = None\<rparr>]"
      using Cons.prems(1,2) by (simp add: r1 appendContent_def Let_def)
    have f1: "streamingMessageRef (render ?s1) = Some (length before, reqId)"
      using Cons.prems(1,2) by (simp add: r1 appendContent_def Let_def)
    have "applyMessages reqId ms ?s1 = (flow, s')"
      using Cons.prems(3) CONTENT by (simp add: applyMessage_def)
    from Cons.IH [OF m1 f1 this] show ?thesis
      using CONTENT by (simp add: receivedText_simps)
  next
    case DONE
    then have "s' = (render s)\<lparr>streamingMessageRef := None, connectionStatus := DISCONNECTED\<rparr>"
      and "flow = Return"
      using Cons.prems(3) by (auto simp: applyMessage_def)
    then show ?thesis
      using Cons.prems(1) DONE by (simp add: render_rendered render_frame receivedText_simps)
  next
    case ERROR
    then have "s' = (render s)\<lparr>streamingMessageRef := None, error := Some (msgData m),
                                connectionStatus := CONNECTION_ERROR\<rparr>"
      and "flow = Return"
      using Cons.prems(3) by (auto simp: applyMessage_def)
    then show ?thesis
      using Cons.prems(1) ERROR by (simp add: render_rendered render_frame receivedText_simps)
  next
    case METADATA
    then have a: "applyMessages reqId ms (render s) = (flow, s')"
      using Cons.prems(3) by (simp add: applyMessage_def)
    have "messages (render (render s)) =
            before @ [\<lparr>role = Assistant, content = acc, metadata = None\<rparr>]"
      "streamingMessageRef (render (render s)) = Some (length before, reqId)"
      using Cons.prems(1,2) by (simp_all add: render_render)
    from Cons.IH [OF this a] show ?thesis
      using METADATA by (simp add: receivedText_simps)
  qed
qed


lemma applyMessages_rendered:
  "applyMessages reqId ms s = (Return, s') \<Longrightarrow> updates s' = []"
proof (induction ms arbitrary: s)
  case Nil
  then show ?case by simp
next
  case (Cons m ms)
  obtain f1 s1 where am: "applyMessage reqId m (render s) = (f1, s1)"
    by (cases "applyMessage reqId m (render s)")
  show ?case
  proof (cases f1)
    case Continue
    with Cons.prems am have "applyMessages reqId ms s1 = (Return, s')" by simp
    from Cons.IH [OF this] show ?thesis .
  next
    case Return
    with Cons.prems am have "s' = s1" by simp
    with am Return show ?thesis
      by (auto simp: applyMessage_def render_frame split: SSEEventType.splits)
  qed
qed

text \<open>
  When every record of the relay arrives in a read of its own and React renders during
  every wait, the assistant message ends as the concatenation, in order, of the fragments
  of the \<^verbatim>\<open>content\<close> frames.
\<close>

lemma own_reads_concatenate:
  assumes "\<not> guardRejects c text"
  shows "messages (render (sendMessage options parseSSEMessage
            \<lparr>outcome = Ok (Some \<lparr>reads = map (\<lambda>m. (True, wireRecord m)) ms,
                                 renderedAtEnd = True, readFailure = None\<rparr>),
             streamId = rid\<rparr> c text payload s)) =
         capturedMessages c @
           [\<lparr>role = User, content = trim text, metadata = None\<rparr>,
            \<lparr>role = Assistant, content = receivedText ms, metadata = None\<rparr>]"
proof -
  let ?body = "\<lparr>reads = map (\<lambda>m. (True, wireRecord m)) ms, renderedAtEnd = True,
                 readFailure = None\<rparr>"
  let ?before = "capturedMessages c @ [\<lparr>role = User, content = trim text, metadata = None\<rparr>]"
  let ?s0 = "dispatch options text (capturedMessages c) payload (s\<lparr>lastPayloadRef := payload\<rparr>)"
  let ?s1 = "(setMessages (AddStreaming rid) ?s0)\<lparr>connectionStatus := CONNECTED\<rparr>"
  have u1: "updates ?s1 = updates s @ [SetTo ?before, AddStreaming rid]"
    by (simp add: dispatch_def Let_def setMessages_def)
  have m1: "messages (render ?s1) =
              ?before @ [\<lparr>role = Assistant, content = [], metadata = None\<rparr>]"
    and f1: "streamingMessageRef (render ?s1) = Some (length ?before, rid)"
    unfolding render_def u1 by simp_all
  obtain flow s2 where a: "applyMessages rid ms ?s1 = (flow, s2)"
    by (cases "applyMessages rid ms ?s1")
  from applyMessages_content [OF m1 f1 a]
  have m2: "messages (render s2) =
      ?before @ [\<lparr>role = Assistant, content = receivedText ms, metadata = None\<rparr>]"
    by simp
  define s3 where "s3 = (case flow of Return \<Rightarrow> s2 | Continue \<Rightarrow> render s2)"
  have u3: "updates s3 = []"
    using a by (cases flow) (simp_all add: s3_def render_frame applyMessages_rendered)
  have m3: "messages s3 =
      ?before @ [\<lparr>role = Assistant, content = receivedText ms, metadata = None\<rparr>]"
  proof (cases flow)
    case Continue
    with m2 show ?thesis by (simp add: s3_def)
  next
    case Return
    with a have "updates s2 = []" by (simp add: applyMessages_rendered)
    then have "render s2 = s2" by (rule render_rendered)
    with m2 Return show ?thesis by (simp add: s3_def)
  qed
  have r: "readLoop parseSSEMessage rid (reads ?body) (renderedAtEnd ?body) (readFailure ?body) ?s1 =
           (Completed, s3)"
    using a by (cases flow) (simp_all add: readLoop_own_reads s3_def)
  have h: "handleStreamingResponse parseSSEMessage rid (Some ?body) ?s0 =
           (Completed, s3\<lparr>streamingMessageRef := None, connectionStatus := DISCONNECTED\<rparr>)"
    unfolding handleStreamingResponse_def using r by (simp add: Let_def)
  have "sendMessage options parseSSEMessage \<lparr>outcome = Ok (Some ?body), streamId = rid\<rparr>
          c text payload s =
        s3\<lparr>streamingMessageRef := None, connectionStatus := DISCONNECTED, isLoading := False\<rparr>"
    using assms h
    by (simp add: sendMessage_def sendMessageCore_def sendMessageCoreStart_def settle_def)
  then show ?thesis using m3 u3 by (simp add: render_rendered)
qed


section \<open>The client: guards of \<^verbatim>\<open>sendMessage\<close> and \<^verbatim>\<open>retry\<close>\<close>

text \<open>
  A call that the guard of \<^verbatim>\<open>sendMessageCore\<close> turns away changes nothing, and the guard of
  \<^verbatim>\<open>retry\<close>, when the counter that the function has captured has reached the maximum, only
  records the error.
\<close>

lemma sendMessageCore_rejected:
  "guardRejects c text \<Longrightarrow>
   sendMessageCore options parse net c text currentMessages payload s = s"
  by (simp add: sendMessageCore_def)

lemma retry_rejected:
  "capturedRetryCount c \<ge> maxRetriesOr3 options \<Longrightarrow>
   retry options parse net c s = s\<lparr>error := Some ''Maximum retry attempts reached''\<rparr>"
  by (simp add: retry_def)

text \<open>
  Claim C8. A session sends \<^verbatim>\<open>hi\<close>; while the request is in flight, \<^verbatim>\<open>sendMessage\<close> is
  called again with \<^verbatim>\<open>again\<close>, before React has rendered, so through the same functions.
  The guard reads the \<^verbatim>\<open>isLoading\<close> that these functions captured, which is false: the call
  is not turned away. A second request is dispatched, and the message list is replaced
  by the captured list, which is empty, followed by the new message: \<^verbatim>\<open>hi\<close> is gone. Made
  through the functions of a render that has seen the request, the same call is turned
  away.
\<close>

theorem second_send_scenario:
  "isLoading inFlight \<and>
   messages (render inFlight) = [userSays ''hi''] \<and>
   map fetchMessages (dispatched inFlight) = [[userSays ''hi'']] \<and>
   sentTwice = sendMessageStart demoOptions firstRender ''again'' None inFlight \<and>
   \<not> guardRejects firstRender ''again'' \<and>
   messages (render sentTwice) = [userSays ''again''] \<and>
   map fetchMessages (dispatched sentTwice) = [[userSays ''hi''], [userSays ''again'']] \<and>
   guardRejects (closureOf inFlight) ''again'' \<and>
   sendMessageStart demoOptions (closureOf inFlight) ''again'' None inFlight = inFlight"
  by code_simp




text \<open>
  Claim C7. Two runs in which the counter has reached the maximum and \<^verbatim>\<open>retry\<close> is not
  turned away. With a configured maximum of 0, which \<^verbatim>\<open>maxRetries || 3\<close> reads as 3, the
  first call of a fresh session counts the attempt and sets no error. With the default
  maximum, after two retries, \<^verbatim>\<open>retry\<close> is called twice before React renders, so through
  the same functions: both calls compare the captured counter, 2; the second finds the
  counter at 3 and takes it to 4, and sets no error. Made through the functions of
  a render that has seen the counter at 3, the call is turned away.
\<close>

theorem retry_not_rejected_scenario:
  "maxRetries zeroOptions = Some 0 \<and> retryCount initialState = 0 \<and>
   retry zeroOptions parseSSEMessage (delivering []) firstRender initialState =
     initialState\<lparr>retryCount := 1\<rparr> \<and>
   maxRetriesOr3 demoOptions = 3 \<and> retryCount retriedTwice = 2 \<and>
   retry demoOptions parseSSEMessage (delivering []) (closureOf retriedTwice) retriedTwice =
     retriedThrice \<and>
   retryCount retriedThrice = 3 \<and>
   retry demoOptions parseSSEMessage (delivering []) (closureOf retriedTwice) retriedThrice =
     retriedThrice\<lparr>retryCount := 4\<rparr> \<and>
   error (retriedThrice\<lparr>retryCount := 4\<rparr>) = None \<and>
   retry demoOptions parseSSEMessage (delivering []) (closureOf retriedThrice) retriedThrice =
     retriedThrice\<lparr>error := Some ''Maximum retry attempts reached''\<rparr>"
  by code_simp


section \<open>The client: runs of a whole exchange\<close>

text \<open>
  Claim C1. The provider's stream throws after two fragments; the relay writes
  \<^verbatim>\<open>metadata\<close>, two \<^verbatim>\<open>content\<close> records and the \<^verbatim>\<open>error\<close> record, and the client reads them,
  each in a read of its own, React rendering during every wait. The assistant message
  keeps the text of the two fragments and the error message is recorded; but the message
  carries no metadata, so no error flag, and the connection status ends as
  \<^verbatim>\<open>disconnected\<close>, not \<^verbatim>\<open>error\<close>.
\<close>

theorem error_frame_scenario:
  "map recordType abortedRecords = [Some METADATA, Some CONTENT, Some CONTENT, Some ERROR] \<and>
   messages (session demoOptions parseSSEMessage
               [SendMessage (delivering abortedRecords) ''hi'' None]) =
     [\<lparr>role = User, content = ''hi'', metadata = None\<rparr>,
      \<lparr>role = Assistant, content = ''Hello'', metadata = None\<rparr>] \<and>
   error (session demoOptions parseSSEMessage
            [SendMessage (delivering abortedRecords) ''hi'' None]) = Some ''boom'' \<and>
   connectionStatus (session demoOptions parseSSEMessage
                       [SendMessage (delivering abortedRecords) ''hi'' None]) = DISCONNECTED"
  by code_simp

text \<open>
  When the four records arrive in a single read, the message is not flagged either and the
  status ends as \<^verbatim>\<open>disconnected\<close>; and the text is lost as well: the \<^verbatim>\<open>error\<close> case clears
  the ref before React runs the updaters of the two fragments.
\<close>

lemma error_frame_single_read:
  "messages (session demoOptions parseSSEMessage
               [SendMessage (delivering (singleRead abortedRecords)) ''hi'' None]) =
     [\<lparr>role = User, content = ''hi'', metadata = None\<rparr>,
      \<lparr>role = Assistant, content = [], metadata = None\<rparr>] \<and>
   error (session demoOptions parseSSEMessage
            [SendMessage (delivering (singleRead abortedRecords)) ''hi'' None]) = Some ''boom'' \<and>
   connectionStatus (session demoOptions parseSSEMessage
                       [SendMessage (delivering (singleRead abortedRecords)) ''hi'' None]) =
     DISCONNECTED"
  by code_simp

text \<open>
  Claim C2. The only request of a session was answered with status 500; the list now ends
  with the assistant's flagged stand-in. A call of \<^verbatim>\<open>retry\<close>, below the maximum, counts the
  attempt and clears the error, and that is all: no request is dispatched, whatever the
  network would answer, and the message list stays as it is.
\<close>

theorem retry_after_failure_scenario:
  "messages failedOnce =
     [\<lparr>role = User, content = ''hi'', metadata = None\<rparr>,
      \<lparr>role = Assistant, content = ''boom'', metadata = Some [(''error'', JSBool True)]\<rparr>] \<and>
   length (dispatched failedOnce) = 1 \<and>
   retryCount failedOnce < maxRetriesOr3 demoOptions \<and>
   perform demoOptions parseSSEMessage (Retry net) failedOnce =
     failedOnce\<lparr>retryCount := 1, error := None\<rparr>"
  by code_simp

text \<open>
  Claim C4. The relay writes \<^verbatim>\<open>metadata\<close>, two \<^verbatim>\<open>content\<close> records with the fragments
  \<^verbatim>\<open>Hel\<close> and \<^verbatim>\<open>lo\<close>, and \<^verbatim>\<open>done\<close>. Read record by record, the assistant message becomes
  \<^verbatim>\<open>Hello\<close>. When the same bytes arrive with the first \<^verbatim>\<open>content\<close> record cut between two
  reads, neither part parses, the fragment \<^verbatim>\<open>Hel\<close> is dropped, and the message becomes
  \<^verbatim>\<open>lo\<close>.
\<close>

theorem split_record_scenario:
  "map recordType completeRecords = [Some METADATA, Some CONTENT, Some CONTENT, Some DONE] \<and>
   concat splitReads = concat completeRecords \<and>
   messages (session demoOptions parseSSEMessage
               [SendMessage (delivering completeRecords) ''hi'' None]) =
     [\<lparr>role = User, content = ''hi'', metadata = None\<rparr>,
      \<lparr>role = Assistant, content = ''Hello'', metadata = None\<rparr>] \<and>
   messages (session demoOptions parseSSEMessage
               [SendMessage (delivering splitReads) ''hi'' None]) =
     [\<lparr>role = User, content = ''hi'', metadata = None\<rparr>,
      \<lparr>role = Assistant, content = ''lo'', metadata = None\<rparr>]"
  by code_simp

text \<open>
  Fragments are lost in a second way, with every record whole: when the four records arrive
  in a single read, the \<^verbatim>\<open>done\<close> case clears the ref before React runs the updaters of
  the two fragments, and the message stays empty.
\<close>

lemma single_read_scenario:
  "concat (singleRead completeRecords) = concat completeRecords \<and>
   messages (session demoOptions parseSSEMessage
               [SendMessage (delivering (singleRead completeRecords)) ''hi'' None]) =
     [\<lparr>role = User, content = ''hi'', metadata = None\<rparr>,
      \<lparr>role = Assistant, content = [], metadata = None\<rparr>]"
  by code_simp

end
